theory Spec2Isabelle
  imports Main
begin

section \<open>JavaScript values\<close>

text \<open>
  The logger of \<^verbatim>\<open>splunklogger.js\<close> works on dynamically typed values: its checks
  are \<^verbatim>\<open>typeof\<close>, \<^verbatim>\<open>hasOwnProperty\<close>, truthiness (\<^verbatim>\<open>!x\<close>, \<^verbatim>\<open>a || b\<close>) and
  \<^verbatim>\<open>parseInt\<close>. The model keeps them: a value is \<open>undefined\<close>, \<open>null\<close>, a boolean,
  a number, a string or an object, and an object is the map of its own properties.
  Numbers are integers (every number the logger computes with is the result of
  \<^verbatim>\<open>parseInt\<close>, a byte count or a counter); fractional numbers, \<open>NaN\<close> and the
  infinities are not values of the model, and a conversion that yields \<open>NaN\<close> returns
  \<open>None\<close>. A number of JavaScript is a double: every integer up to \<open>2 ^ 53\<close> in
  magnitude is one, a decimal numeral beyond is read as the nearest double, and from
  \<open>10 ^ 21\<close> on a number is printed in exponent form. Objects have value semantics
  except where stated.
\<close>

datatype jsval =
    JUndefined
  | JNull
  | JBool bool
  | JNum int
  | JStr string
  | JObj "string \<Rightarrow> jsval option"

type_synonym jsobj = "string \<Rightarrow> jsval option"

text \<open>\<^verbatim>\<open>!!v\<close>: the values that count as true in a condition.\<close>

fun truthy :: "jsval \<Rightarrow> bool" where
  "truthy JUndefined = False"
| "truthy JNull = False"
| "truthy (JBool b) = b"
| "truthy (JNum n) = (n \<noteq> 0)"
| "truthy (JStr s) = (s \<noteq> [])"
| "truthy (JObj m) = True"

fun typeof :: "jsval \<Rightarrow> string" where
  "typeof JUndefined = ''undefined''"
| "typeof JNull = ''object''"
| "typeof (JBool b) = ''boolean''"
| "typeof (JNum n) = ''number''"
| "typeof (JStr s) = ''string''"
| "typeof (JObj m) = ''object''"

text \<open>\<^verbatim>\<open>a || b\<close>.\<close>

definition js_or :: "jsval \<Rightarrow> jsval \<Rightarrow> jsval" where
  "js_or a b = (if truthy a then a else b)"

text \<open>Own properties of an object: \<^verbatim>\<open>o.k\<close>, \<^verbatim>\<open>o.hasOwnProperty(k)\<close>, \<^verbatim>\<open>o.k = v\<close>.\<close>

definition getp :: "jsobj \<Rightarrow> string \<Rightarrow> jsval" where
  "getp m k = (case m k of None \<Rightarrow> JUndefined | Some v \<Rightarrow> v)"

definition hasOwn :: "jsobj \<Rightarrow> string \<Rightarrow> bool" where
  "hasOwn m k = (m k \<noteq> None)"

text \<open>
  The same on any value that is not \<open>null\<close> or \<open>undefined\<close>: a primitive has none of
  the properties the logger asks for, and (the file is not in strict mode) an assignment
  to a property of a primitive is dropped silently.
\<close>

fun propOf :: "jsval \<Rightarrow> string \<Rightarrow> jsval" where
  "propOf (JObj m) k = getp m k"
| "propOf v k = JUndefined"

fun hasOwnProperty :: "jsval \<Rightarrow> string \<Rightarrow> bool" where
  "hasOwnProperty (JObj m) k = hasOwn m k"
| "hasOwnProperty v k = False"

fun setp :: "jsval \<Rightarrow> string \<Rightarrow> jsval \<Rightarrow> jsval" where
  "setp (JObj m) k v = JObj (m(k \<mapsto> v))"
| "setp w k v = w"

definition nullish :: "jsval \<Rightarrow> bool" where
  "nullish v = (case v of JUndefined \<Rightarrow> True | JNull \<Rightarrow> True | _ \<Rightarrow> False)"

subsection \<open>Numbers and strings\<close>

definition digit_char :: "nat \<Rightarrow> char" where
  "digit_char d = char_of (48 + d)"

fun show_nat :: "nat \<Rightarrow> string" where
  "show_nat n = (if n < 10 then [digit_char n] else show_nat (n div 10) @ [digit_char (n mod 10)])"

definition show_int :: "int \<Rightarrow> string" where
  "show_int i = (if i < 0 then CHR ''-'' # show_nat (nat (- i)) else show_nat (nat i))"

text \<open>
  The double nearest to an integer: the integer rounded to 53 significant bits, a tie
  going to the even one. (From \<open>2 ^ 1024\<close> on JavaScript has \<open>Infinity\<close>, which is not a
  value of the model.)
\<close>

fun bitlen :: "nat \<Rightarrow> nat" where
  "bitlen n = (if n = 0 then 0 else Suc (bitlen (n div 2)))"

declare bitlen.simps [simp del]

definition nearest_nat :: "nat \<Rightarrow> nat" where
  "nearest_nat n =
     (let sh = bitlen n - 53; q = n div 2 ^ sh; r = n mod 2 ^ sh
      in if 2 * r < 2 ^ sh \<or> (2 * r = 2 ^ sh \<and> even q) then q * 2 ^ sh
         else (q + 1) * 2 ^ sh)"

definition nearest_number :: "int \<Rightarrow> int" where
  "nearest_number i =
     (if i < 0 then - int (nearest_nat (nat (- i))) else int (nearest_nat (nat i)))"

text \<open>
  \<^verbatim>\<open>Number.prototype.toString\<close> on an integer. Below \<open>10 ^ 21\<close> it is the decimal
  numeral. From there on it is the exponent form of the shortest decimal that reads back
  as the number: with the fewest digits \<open>k\<close>, the \<open>k\<close>-digit decimal nearest to the
  number (the even one of two), printed as \<^verbatim>\<open>d.ddde+n\<close>.
\<close>

fun declen :: "nat \<Rightarrow> nat" where
  "declen n = (if n < 10 then 1 else Suc (declen (n div 10)))"

declare declen.simps [simp del]

definition shortest_at :: "nat \<Rightarrow> nat \<Rightarrow> nat option" where
  "shortest_at x k =
     (let p = 10 ^ (declen x - k); lo = (x div p) * p; hi = lo + p
      in if nearest_nat lo = x
            \<and> (nearest_nat hi \<noteq> x \<or> x - lo < hi - x \<or> (x - lo = hi - x \<and> even (x div p)))
         then Some lo
         else if nearest_nat hi = x then Some hi
         else None)"

fun first_some :: "(nat \<Rightarrow> nat option) \<Rightarrow> nat list \<Rightarrow> nat option" where
  "first_some f [] = None"
| "first_some f (k # ks) = (case f k of Some v \<Rightarrow> Some v | None \<Rightarrow> first_some f ks)"

definition shortest :: "nat \<Rightarrow> nat" where
  "shortest x = (case first_some (shortest_at x) [1 ..< 18] of Some v \<Rightarrow> v | None \<Rightarrow> x)"

definition exponent_form :: "nat \<Rightarrow> string" where
  "exponent_form x =
     (let ds = show_nat (shortest x);
          digits = rev (dropWhile (\<lambda>c. c = CHR ''0'') (rev ds))
      in hd digits # (if tl digits = [] then [] else CHR ''.'' # tl digits)
           @ ''e+'' @ show_nat (length ds - 1))"

definition number_toString :: "int \<Rightarrow> string" where
  "number_toString i =
     (if \<bar>i\<bar> < 10 ^ 21 then show_int i
      else if i < 0 then CHR ''-'' # exponent_form (nat (- i))
      else exponent_form (nat i))"

text \<open>\<^verbatim>\<open>String(v)\<close>, the conversion behind \<^verbatim>\<open>"..." + v\<close> and \<^verbatim>\<open>v.toString()\<close>.\<close>

fun js_toString :: "jsval \<Rightarrow> string" where
  "js_toString JUndefined = ''undefined''"
| "js_toString JNull = ''null''"
| "js_toString (JBool b) = (if b then ''true'' else ''false'')"
| "js_toString (JNum n) = number_toString n"
| "js_toString (JStr s) = s"
| "js_toString (JObj m) = ''[object Object]''"

definition is_digit :: "char \<Rightarrow> bool" where
  "is_digit c = (48 \<le> (of_char c :: nat) \<and> (of_char c :: nat) \<le> 57)"

definition is_space :: "char \<Rightarrow> bool" where
  "is_space c = ((of_char c :: nat) \<in> {9, 10, 11, 12, 13, 32})"

definition digits_val :: "string \<Rightarrow> int" where
  "digits_val ds = foldl (\<lambda>acc c. 10 * acc + (int (of_char c) - 48)) 0 ds"

text \<open>
  \<^verbatim>\<open>parseInt(s, 10)\<close> on a string: leading white space is skipped, one sign is read, and
  the longest prefix of decimal digits is the value, as a double; no digit there gives
  \<open>NaN\<close>.
\<close>

definition parse_digits :: "string \<Rightarrow> int option" where
  "parse_digits s =
     (let ds = takeWhile is_digit s
      in if ds = [] then None else Some (nearest_number (digits_val ds)))"

definition parseInt_str :: "string \<Rightarrow> int option" where
  "parseInt_str s =
     (case dropWhile is_space s of
        [] \<Rightarrow> None
      | c # cs \<Rightarrow>
          if c = CHR ''-'' then map_option uminus (parse_digits cs)
          else if c = CHR ''+'' then parse_digits cs
          else parse_digits (c # cs))"

text \<open>
  \<^verbatim>\<open>parseInt(v, 10)\<close>: the argument is converted to a string first. Below \<open>10 ^ 21\<close> a
  number's string is its decimal numeral, which reads back as the number; from there on
  the string is the exponent form, of which \<^verbatim>\<open>parseInt\<close> reads the digit before the
  point (\<^verbatim>\<open>parseInt(1e21, 10)\<close> is \<open>1\<close>).
\<close>

fun parseInt :: "jsval \<Rightarrow> int option" where
  "parseInt (JNum n) = (if \<bar>n\<bar> < 10 ^ 21 then Some n else parseInt_str (number_toString n))"
| "parseInt v = parseInt_str (js_toString v)"

text \<open>
  \<^verbatim>\<open>Number(v)\<close>, used by \<^verbatim>\<open><\<close> and \<^verbatim>\<open>></\<close> when one side is a number. A string
  counts when, white space trimmed, it is empty or an optionally signed decimal numeral,
  read as a double (the other numeral forms of JavaScript are not integers of the model
  or are not used by the logger).
\<close>

definition trim :: "string \<Rightarrow> string" where
  "trim s = rev (dropWhile is_space (rev (dropWhile is_space s)))"

definition str_toNumber :: "string \<Rightarrow> int option" where
  "str_toNumber s =
     (case trim s of
        [] \<Rightarrow> Some 0
      | c # cs \<Rightarrow>
          (let body = (if c = CHR ''-'' \<or> c = CHR ''+'' then cs else c # cs)
           in if body \<noteq> [] \<and> list_all is_digit body
              then Some (nearest_number
                           (if c = CHR ''-'' then - digits_val body else digits_val body))
              else None))"

fun toNumber :: "jsval \<Rightarrow> int option" where
  "toNumber JUndefined = None"
| "toNumber JNull = Some 0"
| "toNumber (JBool b) = Some (if b then 1 else 0)"
| "toNumber (JNum n) = Some n"
| "toNumber (JStr s) = str_toNumber s"
| "toNumber (JObj m) = None"

text \<open>\<^verbatim>\<open>a < b\<close> on numbers: false as soon as a side is \<open>NaN\<close>.\<close>

definition num_lt :: "int option \<Rightarrow> int option \<Rightarrow> bool" where
  "num_lt a b = (case (a, b) of (Some x, Some y) \<Rightarrow> x < y | _ \<Rightarrow> False)"

definition num_le :: "int option \<Rightarrow> int option \<Rightarrow> bool" where
  "num_le a b = (case (a, b) of (Some x, Some y) \<Rightarrow> x \<le> y | _ \<Rightarrow> False)"


section \<open>The logger and its surroundings\<close>

datatype error = Error string | TypeError string

text \<open>
  What the logger does to the outside, in the order it does it: a POST with its request
  options, a backoff wait (the attempt number handed to \<^verbatim>\<open>utils.expBackoff\<close> and the
  delay it waited), a call of the error sink \<^verbatim>\<open>this.error(err, context)\<close>, a call of
  the completion callback \<^verbatim>\<open>callback(err, response, body)\<close>.
\<close>

datatype event =
    Post jsval
  | Backoff nat nat
  | ErrorSink jsval jsval
  | Callback jsval jsval jsval

text \<open>
  The middlewares work on context objects they share with \<^verbatim>\<open>flush\<close> and with each
  other: \<open>objects\<close> gives the contents of the objects by address, and what is handed to
  a step or to \<^verbatim>\<open>next\<close> is a reference to one of them or a value that is none of them
  (\<open>undefined\<close> when nothing is handed on). The context of \<^verbatim>\<open>flush\<close> itself is the
  object at address \<open>0\<close>.
\<close>

type_synonym objects = "nat \<Rightarrow> jsval"

definition noObjects :: objects where
  "noObjects = (\<lambda>a. JUndefined)"

datatype handed = Ref nat | Val jsval

text \<open>
  A middleware \<^verbatim>\<open>function(context, next)\<close>: from the objects as they are and the
  context it receives, the objects as it leaves them and the error and the context it
  hands to \<^verbatim>\<open>next\<close>, or \<open>None\<close> when it never calls \<^verbatim>\<open>next\<close>.
\<close>

type_synonym middleware = "objects \<Rightarrow> handed \<Rightarrow> (objects \<times> jsval \<times> handed) option"

text \<open>
  A \<^verbatim>\<open>SplunkLogger\<close> instance (\<open>timerID\<close> to \<open>eventSizes\<close>) and the part of the
  process it acts on. The two queues are arrays on a heap, \<open>contextQueue\<close> and
  \<open>eventSizes\<close> hold their addresses: \<^verbatim>\<open>flush\<close> keeps a reference to the old array
  while the instance gets a new one. \<open>intervals\<close> are the live \<^verbatim>\<open>setInterval\<close> timers
  (handle and period), \<open>timerCount\<close> the number of handles given out, \<open>trace\<close> the events
  so far (latest last).
\<close>

record state =
  timerID :: "nat option"
  timerDuration :: int
  config :: "jsobj option"
  middlewares :: "middleware list"
  contextQueue :: nat
  eventSizes :: nat
  ctxArrays :: "jsval list list"
  sizeArrays :: "nat list list"
  intervals :: "(nat \<times> int) list"
  timerCount :: nat
  trace :: "event list"

text \<open>What \<^verbatim>\<open>url.parse\<close> of Node returns, as far as the logger reads it.\<close>

record parsed_url =
  url_protocol :: "string option"
  url_port :: "string option"
  url_hostname :: "string option"
  url_path :: "string option"

text \<open>
  The collaborators that are not part of \<^verbatim>\<open>splunklogger.js\<close>: Node's \<^verbatim>\<open>url.parse\<close>,
  \<^verbatim>\<open>Date.now()\<close>, \<^verbatim>\<open>utils.formatTime(t).toString()\<close>, \<^verbatim>\<open>JSON.stringify\<close>, the delay
  \<^verbatim>\<open>utils.expBackoff\<close> waits at an attempt number, and \<^verbatim>\<open>request.post\<close>: the
  \<open>(err, response, body)\<close> it answers to the request options, given how many POSTs
  were made before.
\<close>

record env =
  url_parse :: "string \<Rightarrow> parsed_url"
  date_now :: int
  formatTime :: "jsval \<Rightarrow> string"
  stringify :: "jsval \<Rightarrow> string"
  expBackoff :: "nat \<Rightarrow> nat"
  request_post :: "jsval \<Rightarrow> nat \<Rightarrow> jsval \<times> jsval \<times> jsval"

definition levels_INFO :: string where
  "levels_INFO = ''info''"

definition defaultConfig :: jsobj where
  "defaultConfig =
     [''name'' \<mapsto> JStr ''splunk-javascript-logging/0.8.0'',
      ''host'' \<mapsto> JStr ''localhost'',
      ''path'' \<mapsto> JStr ''/services/collector/event/1.0'',
      ''protocol'' \<mapsto> JStr ''https'',
      ''port'' \<mapsto> JNum 8088,
      ''level'' \<mapsto> JStr levels_INFO,
      ''autoFlush'' \<mapsto> JBool True,
      ''maxRetries'' \<mapsto> JNum 0,
      ''batchInterval'' \<mapsto> JNum 0,
      ''maxBatchSize'' \<mapsto> JNum 0]"

definition make_url :: "jsval \<Rightarrow> string" where
  "make_url cfg =
     js_toString (propOf cfg ''protocol'') @ ''://'' @ js_toString (propOf cfg ''host'') @ '':''
       @ js_toString (propOf cfg ''port'') @ js_toString (propOf cfg ''path'')"

definition defaultRequestOptions :: jsobj where
  "defaultRequestOptions =
     [''json'' \<mapsto> JBool True,
      ''strictSSL'' \<mapsto> JBool False,
      ''url'' \<mapsto> JStr (make_url (JObj defaultConfig))]"

subsection \<open>The interval timer\<close>

text \<open>\<^verbatim>\<open>_disableTimer\<close>, lines 140-146.\<close>

definition disableTimer :: "state \<Rightarrow> state" where
  "disableTimer S =
     (case timerID S of
        None \<Rightarrow> S
      | Some h \<Rightarrow>
          S\<lparr>intervals := filter (\<lambda>t. fst t \<noteq> h) (intervals S),
            timerDuration := 0,
            timerID := None\<rparr>)"

text \<open>
  \<^verbatim>\<open>_enableTimer\<close>, lines 155-184. The callback given to \<^verbatim>\<open>setInterval\<close> flushes when
  the queue is not empty; the model records the live timer and its period.
\<close>

definition enableTimer :: "state \<Rightarrow> jsval \<Rightarrow> state \<times> (error + unit)" where
  "enableTimer S interval =
     (case interval of
        JNum i \<Rightarrow>
          if i \<le> 0 then
            (S, Inl (Error (''Batch interval must be a positive number, found: '' @ number_toString i)))
          else
            (let S1 = (if timerID S \<noteq> None then disableTimer S else S);
                 S2 = (case config S1 of
                         Some c \<Rightarrow>
                           if hasOwn c ''batchInterval''
                           then S1\<lparr>config := Some (c(''batchInterval'' \<mapsto> JNum i))\<rparr>
                           else S1
                       | None \<Rightarrow> S1);
                 S3 = S2\<lparr>timerDuration := i\<rparr>
             in (S3\<lparr>timerID := Some (timerCount S3),
                    intervals := (timerCount S3, i) # intervals S3,
                    timerCount := Suc (timerCount S3)\<rparr>, Inr ()))
      | _ \<Rightarrow>
          (S, Inl (Error (''Batch interval must be a number, found: '' @ js_toString interval))))"

subsection \<open>Settings resolution\<close>

text \<open>
  \<^verbatim>\<open>_initializeConfig(config)\<close>, lines 194-315, in the order of the source. The argument
  is either the instance's own \<^verbatim>\<open>this.config\<close> object (as \<^verbatim>\<open>_initializeContext\<close> passes
  it when the context has no config) or another value.
\<close>

datatype cfg_arg = ThisConfig | Arg jsval

text \<open>Lines 203-214: the checks on the argument and on the token.\<close>

definition checkConfig :: "jsobj \<Rightarrow> jsval \<Rightarrow> error + jsobj" where
  "checkConfig ret cfg =
     (if \<not> truthy cfg then Inl (Error ''Config is required.'')
      else if typeof cfg \<noteq> ''object'' then Inl (Error ''Config must be an object.'')
      else if \<not> hasOwn ret ''token'' \<and> \<not> hasOwnProperty cfg ''token''
        then Inl (Error ''Config object must have a token.'')
      else if typeof (getp ret ''token'') \<noteq> ''string'' \<and> typeof (propOf cfg ''token'') \<noteq> ''string''
        then Inl (Error ''Config token must be a string.'')
      else (case cfg of JObj c \<Rightarrow> Inr c | _ \<Rightarrow> Inl (Error ''Config must be an object.'')))"

definition nonempty :: "string option \<Rightarrow> bool" where
  "nonempty s = (case s of None \<Rightarrow> False | Some x \<Rightarrow> x \<noteq> [])"

text \<open>
  Lines 217-239: a \<^verbatim>\<open>url\<close> in the argument overwrites its protocol, port, host and
  path. \<^verbatim>\<open>url.parse\<close> throws a \<^verbatim>\<open>TypeError\<close> on what is not a string.
\<close>

definition applyUrl :: "env \<Rightarrow> jsobj \<Rightarrow> error + jsobj" where
  "applyUrl E c =
     (if truthy (getp c ''url'') then
        (case getp c ''url'' of
           JStr u \<Rightarrow>
             (let parsed = url_parse E u;
                  pathIsNotSlash = (nonempty (url_path parsed) \<and> url_path parsed \<noteq> Some ''/'');
                  c1 = (if nonempty (url_protocol parsed)
                        then c(''protocol'' \<mapsto> JStr (remove1 (CHR '':'') (the (url_protocol parsed))))
                        else c);
                  c2 = (if nonempty (url_port parsed)
                        then c1(''port'' \<mapsto> JStr (the (url_port parsed)))
                        else c1);
                  c3 = (if nonempty (url_hostname parsed) \<and> nonempty (url_path parsed) then
                          (let c' = c2(''host'' \<mapsto> JStr (the (url_hostname parsed)))
                           in if pathIsNotSlash
                              then c'(''path'' \<mapsto> JStr (the (url_path parsed)))
                              else c')
                        else if pathIsNotSlash
                          then c2(''host'' \<mapsto> JStr (the (url_path parsed)))
                        else c2)
              in Inr c3)
         | _ \<Rightarrow> Inl (TypeError ''Parameter url must be a string''))
      else Inr c)"

text \<open>
  Lines 243-247, and the first line of each numeric setting:
  \<^verbatim>\<open>ret.k = config.k || ret.k || defaultConfig.k\<close>.
\<close>

definition orField :: "jsobj \<Rightarrow> jsobj \<Rightarrow> string \<Rightarrow> jsobj" where
  "orField c ret k = ret(k \<mapsto> js_or (js_or (getp c k) (getp ret k)) (getp defaultConfig k))"

text \<open>
  Lines 249-256, 271-278 and 280-287 are the same four statements for \<^verbatim>\<open>maxRetries\<close>,
  \<^verbatim>\<open>maxBatchSize\<close> and \<^verbatim>\<open>batchInterval\<close>; \<open>label\<close> is how the error message
  names the setting.
\<close>

definition resolveNumber :: "string \<Rightarrow> string \<Rightarrow> jsobj \<Rightarrow> jsobj \<Rightarrow> error + jsobj" where
  "resolveNumber k label c ret =
     (case parseInt (getp (orField c ret k) k) of
        None \<Rightarrow> Inl (Error (label @ '' must be a number, found: NaN''))
      | Some n \<Rightarrow>
          if n < 0 then Inl (Error (label @ '' must be a positive number, found: '' @ number_toString n))
          else Inr (ret(k \<mapsto> JNum n)))"

text \<open>Lines 258-269.\<close>

definition resolveAutoFlush :: "jsobj option \<Rightarrow> jsobj \<Rightarrow> jsobj \<Rightarrow> jsobj" where
  "resolveAutoFlush this_config c ret =
     (let a0 = getp defaultConfig ''autoFlush'';
          a1 = (case this_config of
                  Some ic \<Rightarrow> if hasOwn ic ''autoFlush'' then getp ic ''autoFlush'' else a0
                | None \<Rightarrow> a0);
          a2 = (if hasOwn c ''autoFlush'' then getp c ''autoFlush'' else a1)
      in ret(''autoFlush'' \<mapsto> JBool (truthy a2)))"

text \<open>Lines 242-287.\<close>

definition resolveFields :: "jsobj option \<Rightarrow> jsobj \<Rightarrow> jsobj \<Rightarrow> error + jsobj" where
  "resolveFields this_config c ret =
     (let r1 = ret(''token'' \<mapsto> js_or (getp c ''token'') (getp ret ''token''));
          r2 = orField c r1 ''name'';
          r3 = orField c r2 ''host'';
          r4 = orField c r3 ''path'';
          r5 = orField c r4 ''protocol'';
          r6 = orField c r5 ''level''
      in case resolveNumber ''maxRetries'' ''Max retries'' c r6 of
           Inl e \<Rightarrow> Inl e
         | Inr r7 \<Rightarrow>
             (case resolveNumber ''maxBatchSize'' ''Max batch size'' c
                     (resolveAutoFlush this_config c r7) of
                Inl e \<Rightarrow> Inl e
              | Inr r9 \<Rightarrow> resolveNumber ''batchInterval'' ''Batch interval'' c r9))"

text \<open>Lines 289-299: start, restart or stop the timer.\<close>

definition upsertTimer :: "state \<Rightarrow> jsobj \<Rightarrow> state \<times> (error + unit)" where
  "upsertTimer S ret =
     (let autoFlush = truthy (getp ret ''autoFlush'');
          positive = num_lt (Some 0) (toNumber (getp ret ''batchInterval''));
          startTimer = (timerID S = None \<and> autoFlush \<and> positive);
          changeTimer = (timerID S \<noteq> None \<and> autoFlush
                           \<and> JNum (timerDuration S) \<noteq> getp ret ''batchInterval'' \<and> positive)
      in if startTimer \<or> changeTimer then enableTimer S (getp ret ''batchInterval'')
         else if timerID S \<noteq> None \<and> (timerDuration S < 0 \<or> \<not> autoFlush)
           then (disableTimer S, Inr ())
         else (S, Inr ()))"

text \<open>Lines 301-312.\<close>

definition checkPort :: "jsobj \<Rightarrow> error + jsobj" where
  "checkPort ret =
     (if num_lt (toNumber (getp ret ''port'')) (Some 1000)
         \<or> num_lt (Some 65535) (toNumber (getp ret ''port''))
      then Inl (Error (''Port must be an integer between 1000 and 65535, found: ''
                        @ js_toString (getp ret ''port'')))
      else Inr ret)"

definition resolvePort :: "jsobj \<Rightarrow> jsobj \<Rightarrow> error + jsobj" where
  "resolvePort c ret =
     (if \<not> hasOwn c ''port''
      then checkPort (ret(''port'' \<mapsto> js_or (getp ret ''port'') (getp defaultConfig ''port'')))
      else (case parseInt (getp c ''port'') of
              None \<Rightarrow> Inl (Error ''Port must be an integer, found: NaN'')
            | Some p \<Rightarrow> checkPort (ret(''port'' \<mapsto> JNum p))))"

text \<open>
  The whole function. A throw leaves the instance as it is at that point: the timer is
  set before the port is checked. When the argument is \<^verbatim>\<open>this.config\<close> itself, what the
  \<^verbatim>\<open>url\<close> step writes into the argument is written into the instance's object.
\<close>

definition initializeConfig :: "env \<Rightarrow> state \<Rightarrow> cfg_arg \<Rightarrow> state \<times> (error + jsobj)" where
  "initializeConfig E S arg =
     (let ret = (case config S of None \<Rightarrow> Map.empty | Some ic \<Rightarrow> ic);
          cfg = (case arg of
                   ThisConfig \<Rightarrow> (case config S of None \<Rightarrow> JUndefined | Some ic \<Rightarrow> JObj ic)
                 | Arg v \<Rightarrow> v)
      in case checkConfig ret cfg of
           Inl e \<Rightarrow> (S, Inl e)
         | Inr c0 \<Rightarrow>
             (case applyUrl E c0 of
                Inl e \<Rightarrow> (S, Inl e)
              | Inr c \<Rightarrow>
                  (let S0 = (case arg of ThisConfig \<Rightarrow> S\<lparr>config := Some c\<rparr> | Arg v \<Rightarrow> S)
                   in case resolveFields (config S0) c ret of
                        Inl e \<Rightarrow> (S0, Inl e)
                      | Inr r \<Rightarrow>
                          (case upsertTimer S0 r of
                             (S1, Inl e) \<Rightarrow> (S1, Inl e)
                           | (S1, Inr u) \<Rightarrow>
                               (case resolvePort c r of
                                  Inl e \<Rightarrow> (S1, Inl e)
                                | Inr r' \<Rightarrow> (S1, Inr r'))))))"

text \<open>
  The constructor, lines 77-99: \<^verbatim>\<open>this.config\<close> is not set while the settings are
  resolved, and the queues are two new empty arrays.
\<close>

definition emptyState :: state where
  "emptyState =
     \<lparr>timerID = None, timerDuration = 0, config = None, middlewares = [],
      contextQueue = 0, eventSizes = 0, ctxArrays = [], sizeArrays = [],
      intervals = [], timerCount = 0, trace = []\<rparr>"

definition SplunkLogger :: "env \<Rightarrow> jsval \<Rightarrow> state \<times> (error + unit)" where
  "SplunkLogger E cfg =
     (case initializeConfig E emptyState (Arg cfg) of
        (S, Inl e) \<Rightarrow> (S, Inl e)
      | (S, Inr r) \<Rightarrow>
          (S\<lparr>config := Some r, middlewares := [],
             contextQueue := length (ctxArrays S), ctxArrays := ctxArrays S @ [[]],
             eventSizes := length (sizeArrays S), sizeArrays := sizeArrays S @ [[]]\<rparr>, Inr ()))"


subsection \<open>Normalizing a context\<close>

definition thisConfig :: "state \<Rightarrow> jsval" where
  "thisConfig S = (case config S of None \<Rightarrow> JUndefined | Some ic \<Rightarrow> JObj ic)"

text \<open>\<^verbatim>\<open>_initializeRequestOptions(config, options)\<close>, lines 326-346.\<close>

definition initializeRequestOptions :: "state \<Rightarrow> jsval \<Rightarrow> jsval \<Rightarrow> jsobj" where
  "initializeRequestOptions S cfg0 options0 =
     (let ret = defaultRequestOptions;
          cfg = js_or (js_or cfg0 (thisConfig S)) (JObj defaultConfig);
          options = js_or options0 (JObj ret);
          ret1 = ret(''url'' \<mapsto> JStr (make_url cfg));
          ret2 = ret1(''json'' \<mapsto>
                   (if hasOwnProperty options ''json'' then propOf options ''json''
                    else getp ret1 ''json''));
          ret3 = ret2(''strictSSL'' \<mapsto> js_or (propOf options ''strictSSL'') (getp ret2 ''strictSSL''));
          ret4 = ret3(''headers'' \<mapsto> js_or (propOf options ''headers'') (JObj Map.empty))
      in if truthy (propOf cfg ''token'')
         then ret4(''headers'' \<mapsto>
                setp (getp ret4 ''headers'') ''Authorization''
                  (JStr (''Splunk '' @ js_toString (propOf cfg ''token''))))
         else ret4)"

text \<open>\<^verbatim>\<open>_initializeMessage\<close>, lines 354-359.\<close>

definition initializeMessage :: "jsval \<Rightarrow> error + jsval" where
  "initializeMessage message =
     (if typeof message = ''undefined'' \<or> message = JNull
      then Inl (Error ''Message argument is required.'')
      else Inr message)"

text \<open>
  \<^verbatim>\<open>_initializeMetadata(context)\<close>, lines 369-389. Reading \<^verbatim>\<open>hasOwnProperty\<close> of a
  \<^verbatim>\<open>metadata\<close> that is \<open>null\<close> or \<open>undefined\<close> throws a \<^verbatim>\<open>TypeError\<close>.
\<close>

definition copyKey :: "jsval \<Rightarrow> string \<Rightarrow> jsobj \<Rightarrow> jsobj" where
  "copyKey src k dst = (if hasOwnProperty src k then dst(k \<mapsto> propOf src k) else dst)"

definition initializeMetadata :: "jsval \<Rightarrow> error + jsobj" where
  "initializeMetadata context =
     (if hasOwnProperty context ''metadata'' then
        (let md = propOf context ''metadata''
         in if nullish md then Inl (TypeError ''Cannot read property hasOwnProperty'')
            else Inr (copyKey md ''index'' (copyKey md ''sourcetype'' (copyKey md ''source''
                       (copyKey md ''host'' (copyKey md ''time'' Map.empty))))))
      else Inr Map.empty)"

text \<open>
  \<^verbatim>\<open>_initializeContext(context)\<close>, lines 399-423. The context is changed in place and
  returned; a throw gives no context back.
\<close>

definition initializeContext :: "env \<Rightarrow> state \<Rightarrow> jsval \<Rightarrow> state \<times> (error + jsval)" where
  "initializeContext E S context =
     (if \<not> truthy context then (S, Inl (Error ''Context argument is required.''))
      else if typeof context \<noteq> ''object''
        then (S, Inl (Error ''Context argument must be an object.''))
      else if \<not> hasOwnProperty context ''message''
        then (S, Inl (Error ''Context argument must have the message property set.''))
      else
        (case initializeConfig E S
                (if truthy (propOf context ''config'') then Arg (propOf context ''config'')
                 else ThisConfig) of
           (S1, Inl e) \<Rightarrow> (S1, Inl e)
         | (S1, Inr r) \<Rightarrow>
             (let c1 = setp context ''config'' (JObj r);
                  c2 = setp c1 ''requestOptions''
                         (JObj (initializeRequestOptions S1 (propOf c1 ''config'')
                                  (propOf c1 ''requestOptions'')))
              in case initializeMessage (propOf c2 ''message'') of
                   Inl e \<Rightarrow> (S1, Inl e)
                 | Inr m \<Rightarrow>
                     (let c3 = setp c2 ''message'' m;
                          c4 = setp c3 ''severity''
                                 (js_or (propOf c3 ''severity'') (JStr levels_INFO))
                      in if truthy (propOf c4 ''metadata'')
                         then (S1, Inr (setp c4 ''metadata'' (propOf c4 ''metadata'')))
                         else (case initializeMetadata c4 of
                                 Inl e \<Rightarrow> (S1, Inl e)
                               | Inr md \<Rightarrow> (S1, Inr (setp c4 ''metadata'' (JObj md))))))))"

text \<open>\<^verbatim>\<open>_makeBody(context)\<close>, lines 433-447.\<close>

definition makeBody :: "env \<Rightarrow> jsval \<Rightarrow> error + jsobj" where
  "makeBody E context =
     (if \<not> truthy context then Inl (Error ''Context parameter is required.'')
      else
        (case initializeMetadata context of
           Inl e \<Rightarrow> Inl e
         | Inr body \<Rightarrow>
             (let time = formatTime E (js_or (getp body ''time'') (JNum (date_now E)));
                  body1 = body(''time'' \<mapsto> JStr time)
              in Inr (body1(''event'' \<mapsto>
                    JObj [''message'' \<mapsto> propOf context ''message'',
                          ''severity'' \<mapsto> js_or (propOf context ''severity'') (JStr levels_INFO)])))))"

subsection \<open>The queue\<close>

text \<open>
  The array at an address. Addresses come from the allocations of the constructor and of
  \<^verbatim>\<open>flush\<close>, so an address outside the heap does not occur; it reads as empty.
\<close>

definition deref :: "'a list list \<Rightarrow> nat \<Rightarrow> 'a list" where
  "deref h a = (if a < length h then h ! a else [])"

definition queueOf :: "state \<Rightarrow> jsval list" where
  "queueOf S = deref (ctxArrays S) (contextQueue S)"

definition sizesOf :: "state \<Rightarrow> nat list" where
  "sizesOf S = deref (sizeArrays S) (eventSizes S)"

text \<open>\<^verbatim>\<open>use(middleware)\<close>, lines 471-478, for an argument that is a function.\<close>

definition use :: "state \<Rightarrow> middleware \<Rightarrow> state" where
  "use S middleware = S\<lparr>middlewares := middlewares S @ [middleware]\<rparr>"

text \<open>\<^verbatim>\<open>calculateBatchSize()\<close>, lines 487-493: the loop adds the sizes from the first on.\<close>

definition calculateBatchSize :: "state \<Rightarrow> nat" where
  "calculateBatchSize S = foldl (\<lambda>size x. size + x) 0 (sizesOf S)"


subsection \<open>Delivery\<close>

definition postCount :: "event list \<Rightarrow> nat" where
  "postCount tr = length (filter (\<lambda>e. case e of Post ro \<Rightarrow> True | _ \<Rightarrow> False) tr)"

text \<open>
  \<^verbatim>\<open>_post(requestOptions, callback)\<close>, lines 502-504: the POST is made and the transport
  answers the callback once with \<open>(err, response, body)\<close>.
\<close>

definition post :: "env \<Rightarrow> state \<Rightarrow> jsval \<Rightarrow> state \<times> (jsval \<times> jsval \<times> jsval)" where
  "post E S requestOptions =
     (S\<lparr>trace := trace S @ [Post requestOptions]\<rparr>,
      request_post E requestOptions (postCount (trace S)))"

text \<open>
  The variables \<^verbatim>\<open>_sendEvents\<close> shares between the three functions it gives to
  \<^verbatim>\<open>utils.whilst\<close> (lines 518-523); \<^verbatim>\<open>numRetries\<close> is passed separately.
\<close>

record send_vars =
  splunkError :: jsval
  requestError :: jsval
  response_var :: jsval
  body_var :: jsval

text \<open>\<^verbatim>\<open>new Error(body.text)\<close> with its \<^verbatim>\<open>code\<close> set, lines 542-543.\<close>

definition serviceError :: "jsval \<Rightarrow> jsval" where
  "serviceError body =
     JObj [''message'' \<mapsto>
             (if propOf body ''text'' = JUndefined then JStr []
              else JStr (js_toString (propOf body ''text''))),
           ''code'' \<mapsto> propOf body ''code'']"

datatype signal = Again | Done | Thrown error

text \<open>
  The callback of \<^verbatim>\<open>_post\<close>, lines 533-554, with \<open>n\<close> the value of \<^verbatim>\<open>numRetries\<close>.
  \<^verbatim>\<open>done(true)\<close> ends the loop; \<^verbatim>\<open>utils.expBackoff({attempt: numRetries}, done)\<close>
  waits, then continues it.
\<close>

definition maxRetriesOf :: "jsval \<Rightarrow> jsval" where
  "maxRetriesOf context = propOf (propOf context ''config'') ''maxRetries''"

definition onResponse ::
  "env \<Rightarrow> jsval \<Rightarrow> state \<Rightarrow> nat \<Rightarrow> jsval \<times> jsval \<times> jsval \<Rightarrow> state \<times> send_vars \<times> signal" where
  "onResponse E context S n reply =
     (case reply of (err, resp, body) \<Rightarrow>
        (let v = \<lparr>splunkError = JNull, requestError = err, response_var = resp, body_var = body\<rparr>
         in if \<not> truthy err \<and> truthy body \<and> nullish (propOf body ''code'')
            then (S, v, Thrown (TypeError ''Cannot read property toString''))
            else
              (let v1 = (if \<not> truthy err \<and> truthy body
                            \<and> js_toString (propOf body ''code'') \<noteq> ''0''
                         then v\<lparr>splunkError := serviceError body\<rparr> else v)
               in if truthy err \<and> num_le (Some (int n)) (toNumber (maxRetriesOf context))
                  then (S\<lparr>trace := trace S @ [Backoff n (expBackoff E n)]\<rparr>, v1, Again)
                  else (S, v1, Done))))"

text \<open>
  Modelled from the spec: \<^verbatim>\<open>utils.whilst\<close> and \<^verbatim>\<open>utils.expBackoff\<close> are in
  \<^verbatim>\<open>utils.js\<close>, which is not among the sources. The loop runs the condition (line
  530, which also increments \<^verbatim>\<open>numRetries\<close>), then the body; the body's \<^verbatim>\<open>done\<close>
  with an error ends the loop, without one it runs the loop again; the backoff is a wait
  whose length is a function of the attempt number, after which the loop goes on.
\<close>

function whilst_sendEvents ::
  "env \<Rightarrow> jsval \<Rightarrow> state \<Rightarrow> nat \<Rightarrow> send_vars \<Rightarrow> state \<times> nat \<times> send_vars \<times> error option" where
  "whilst_sendEvents E context S n v =
     (if nullish (propOf context ''config'')
      then (S, n, v, Some (TypeError ''Cannot read property maxRetries''))
      else if num_le (Some (int n)) (toNumber (maxRetriesOf context)) then
        (case post E S (propOf context ''requestOptions'') of
           (S1, reply) \<Rightarrow>
             (case onResponse E context S1 (Suc n) reply of
                (S2, v2, Again) \<Rightarrow> whilst_sendEvents E context S2 (Suc n) v2
              | (S2, v2, Done) \<Rightarrow> (S2, Suc n, v2, None)
              | (S2, v2, Thrown e) \<Rightarrow> (S2, Suc n, v2, Some e)))
      else (S, Suc n, v, None))"
  by pat_completeness auto
termination
  by (relation "measure (\<lambda>(E, context, S, n, v).
        case toNumber (maxRetriesOf context) of None \<Rightarrow> 0 | Some m \<Rightarrow> nat (m + 1 - int n))")
     (auto simp: num_le_def split: option.splits)

declare whilst_sendEvents.simps [simp del]

text \<open>\<^verbatim>\<open>_sendEvents(context, callback)\<close>, lines 513-565.\<close>

definition sendEvents :: "env \<Rightarrow> state \<Rightarrow> jsval \<Rightarrow> state \<times> (error + unit)" where
  "sendEvents E S context =
     (case whilst_sendEvents E context S 0
             \<lparr>splunkError = JNull, requestError = JNull, response_var = JNull, body_var = JNull\<rparr> of
        (S1, n, v, Some e) \<Rightarrow> (S1, Inl e)
      | (S1, n, v, None) \<Rightarrow>
          (let S2 = (if truthy (requestError v) \<or> truthy (splunkError v)
                     then S1\<lparr>trace := trace S1 @
                            [ErrorSink (js_or (requestError v) (splunkError v)) context]\<rparr>
                     else S1)
           in (S2\<lparr>trace := trace S2 @
                    [Callback (requestError v) (response_var v) (body_var v)]\<rparr>, Inr ())))"

subsection \<open>Flushing\<close>

text \<open>
  Modelled from the spec: \<^verbatim>\<open>utils.chain\<close> is in \<^verbatim>\<open>utils.js\<close>, which is not among the
  sources. The steps run in order, each on the context the one before handed on; a step
  that hands on a non-null error ends the chain with that error and the context as last
  observed: the one the step handed on with the error or, when it handed on none, the one
  it received, in both cases with the changes made to the object so far. After the last
  step the chain ends with no error and the final context. A step that never calls its
  continuation stalls the chain. \<^verbatim>\<open>flush\<close> seeds the chain with its context (lines
  680-682).
\<close>

definition lastObserved :: "handed \<Rightarrow> handed \<Rightarrow> handed" where
  "lastObserved received passed = (if passed = Val JUndefined then received else passed)"

fun chain :: "middleware list \<Rightarrow> objects \<Rightarrow> handed \<Rightarrow> (objects \<times> jsval \<times> handed) option" where
  "chain [] os context = Some (os, JNull, context)"
| "chain (step # steps) os context =
     (case step os context of
        None \<Rightarrow> None
      | Some (os', err, context') \<Rightarrow>
          if \<not> nullish err then Some (os', err, lastObserved context context')
          else chain steps os' context')"

definition setHeader :: "jsval \<Rightarrow> string \<Rightarrow> jsval \<Rightarrow> jsval" where
  "setHeader context k v =
     setp context ''requestOptions''
       (setp (propOf context ''requestOptions'') ''headers''
          (setp (propOf (propOf context ''requestOptions'') ''headers'') k v))"

definition setBody :: "jsval \<Rightarrow> jsval" where
  "setBody context =
     setp context ''requestOptions''
       (setp (propOf context ''requestOptions'') ''body'' (propOf context ''message''))"

text \<open>
  The function \<^verbatim>\<open>flush\<close> gives to \<^verbatim>\<open>utils.chain\<close>, lines 686-718. In
  \<^verbatim>\<open>context = passedContext || context\<close> the second \<^verbatim>\<open>context\<close> is the object of
  \<^verbatim>\<open>flush\<close>, as the steps have left it.
\<close>

definition passedOr :: "objects \<Rightarrow> handed \<Rightarrow> jsval" where
  "passedOr os passedContext =
     (case passedContext of
        Ref a \<Rightarrow> os a
      | Val v \<Rightarrow> if truthy v then v else os 0)"

definition afterChain ::
  "env \<Rightarrow> state \<Rightarrow> bool \<Rightarrow> objects \<Rightarrow> jsval \<Rightarrow> handed \<Rightarrow> state \<times> (error + unit)" where
  "afterChain E S isBatched os err passedContext =
     (let context = passedOr os passedContext
      in if truthy err then (S\<lparr>trace := trace S @ [ErrorSink err context]\<rparr>, Inr ())
         else
           (case initializeContext E S context of
              (S1, Inl e) \<Rightarrow> (S1, Inl e)
            | (S1, Inr c1) \<Rightarrow>
                (let c2 = setHeader c1 ''Authorization''
                            (JStr (''Splunk '' @ js_toString (propOf (propOf c1 ''config'') ''token'')))
                 in if isBatched then
                      sendEvents E S1
                        (setBody (setHeader c2 ''content-type''
                                    (JStr ''application/x-www-form-urlencoded'')))
                    else
                      (case makeBody E c2 of
                         Inl e \<Rightarrow> (S1, Inl e)
                       | Inr b \<Rightarrow> sendEvents E S1 (setBody (setp c2 ''message'' (JObj b)))))))"

text \<open>
  Lines 671-686: normalize the context, then run the middlewares on it. The first
  function of the chain hands the context of \<^verbatim>\<open>flush\<close> to the first middleware.
\<close>

definition pipeline :: "env \<Rightarrow> state \<Rightarrow> bool \<Rightarrow> jsval \<Rightarrow> state \<times> (error + unit)" where
  "pipeline E S isBatched context0 =
     (case initializeContext E S context0 of
        (S1, Inl e) \<Rightarrow> (S1, Inl e)
      | (S1, Inr context) \<Rightarrow>
          (case chain (middlewares S1) (noObjects(0 := context)) (Ref 0) of
             None \<Rightarrow> (S1, Inr ())
           | Some (os, err, passedContext) \<Rightarrow> afterChain E S1 isBatched os err passedContext))"

text \<open>
  Lines 654-656: \<^verbatim>\<open>queue\<close> keeps the address of the old array, and the instance gets
  two new empty arrays.
\<close>

definition drain :: "state \<Rightarrow> state" where
  "drain S =
     S\<lparr>contextQueue := length (ctxArrays S), ctxArrays := ctxArrays S @ [[]],
       eventSizes := length (sizeArrays S), sizeArrays := sizeArrays S @ [[]]\<rparr>"

text \<open>Lines 657-661: the bodies of the drained contexts, one after the other.\<close>

fun batchData :: "env \<Rightarrow> jsval list \<Rightarrow> string \<Rightarrow> error + string" where
  "batchData E [] data = Inr data"
| "batchData E (c # cs) data =
     (case makeBody E c of
        Inl e \<Rightarrow> Inl e
      | Inr b \<Rightarrow> batchData E cs (data @ stringify E (JObj b)))"

text \<open>
  Lines 666-667: \<^verbatim>\<open>pop()\<close> takes the last element of an array, and gives \<open>undefined\<close>
  on an empty one.
\<close>

definition popContext :: "state \<Rightarrow> jsval \<times> state" where
  "popContext S =
     (if queueOf S = [] then (JUndefined, S)
      else (last (queueOf S),
            S\<lparr>ctxArrays := (ctxArrays S)[contextQueue S := butlast (queueOf S)]\<rparr>))"

definition popSize :: "state \<Rightarrow> state" where
  "popSize S = S\<lparr>sizeArrays := (sizeArrays S)[eventSizes S := butlast (sizesOf S)]\<rparr>"

text \<open>Lines 649-650.\<close>

definition batchOverSize :: "state \<Rightarrow> jsobj \<Rightarrow> bool" where
  "batchOverSize S ic =
     (num_lt (Some 0) (toNumber (getp ic ''maxBatchSize''))
      \<and> num_lt (toNumber (getp ic ''maxBatchSize'')) (Some (int (calculateBatchSize S))))"

definition isBatched :: "state \<Rightarrow> jsobj \<Rightarrow> bool" where
  "isBatched S ic =
     (\<not> truthy (getp ic ''autoFlush'')
      \<or> (truthy (getp ic ''autoFlush'') \<and> (batchOverSize S ic \<or> timerID S \<noteq> None)))"

text \<open>
  Lines 652-668: the context \<^verbatim>\<open>flush\<close> goes on with. Batched, it is a new object whose
  message is the data of the drained queue; otherwise it is the element popped off the
  queue.
\<close>

definition flushContext :: "env \<Rightarrow> state \<Rightarrow> jsobj \<Rightarrow> state \<times> (error + jsval)" where
  "flushContext E S ic =
     (if isBatched S ic then
        (let queue = contextQueue S;
             S1 = drain S
         in case batchData E (deref (ctxArrays S1) queue) [] of
              Inl e \<Rightarrow> (S1, Inl e)
            | Inr data \<Rightarrow> (S1, Inr (JObj [''message'' \<mapsto> JStr data])))
      else
        (case popContext S of (context, S1) \<Rightarrow> (popSize S1, Inr context)))"

text \<open>\<^verbatim>\<open>flush(callback)\<close>, lines 644-719.\<close>

definition flush :: "env \<Rightarrow> state \<Rightarrow> state \<times> (error + unit)" where
  "flush E S =
     (case config S of
        None \<Rightarrow> (S, Inl (TypeError ''Cannot read property maxBatchSize''))
      | Some ic \<Rightarrow>
          (case flushContext E S ic of
             (S1, Inl e) \<Rightarrow> (S1, Inl e)
           | (S1, Inr context) \<Rightarrow> pipeline E S1 (isBatched S ic) context))"

text \<open>\<^verbatim>\<open>send(context, callback)\<close>, lines 619-633.\<close>

definition send :: "env \<Rightarrow> state \<Rightarrow> jsval \<Rightarrow> state \<times> (error + unit)" where
  "send E S context0 =
     (case initializeContext E S context0 of
        (S1, Inl e) \<Rightarrow> (S1, Inl e)
      | (S1, Inr context) \<Rightarrow>
          (let S2 = S1\<lparr>ctxArrays := (ctxArrays S1)[contextQueue S1 := queueOf S1 @ [context]]\<rparr>
           in case makeBody E context of
                Inl e \<Rightarrow> (S2, Inl e)
              | Inr b \<Rightarrow>
                  (let S3 = S2\<lparr>sizeArrays := (sizeArrays S2)
                                  [eventSizes S2 := sizesOf S2 @ [length (stringify E (JObj b))]]\<rparr>;
                       batchOverSize =
                         num_lt (toNumber (propOf (propOf context ''config'') ''maxBatchSize''))
                                (Some (int (calculateBatchSize S3)))
                   in if truthy (propOf (propOf context ''config'') ''autoFlush'')
                         \<and> timerID S3 = None \<and> batchOverSize
                      then flush E S3
                      else (S3, Inr ()))))"

text \<open>The function given to \<^verbatim>\<open>setInterval\<close>, lines 174-178, at a tick of the timer.\<close>

definition tick :: "env \<Rightarrow> state \<Rightarrow> state \<times> (error + unit)" where
  "tick E S = (if length (queueOf S) > 0 then flush E S else (S, Inr ()))"


section \<open>Notions used in the statements\<close>

text \<open>
  What settings resolution and normalization leave alone: the middlewares, the two
  queues and the trace.
\<close>

definition frame :: "state \<Rightarrow> state \<Rightarrow> bool" where
  "frame S S' =
     (middlewares S' = middlewares S \<and> contextQueue S' = contextQueue S
      \<and> eventSizes S' = eventSizes S \<and> ctxArrays S' = ctxArrays S
      \<and> sizeArrays S' = sizeArrays S \<and> trace S' = trace S)"

text \<open>What delivery leaves alone: the two queues.\<close>

definition sameQueues :: "state \<Rightarrow> state \<Rightarrow> bool" where
  "sameQueues S S' =
     (contextQueue S' = contextQueue S \<and> eventSizes S' = eventSizes S
      \<and> ctxArrays S' = ctxArrays S \<and> sizeArrays S' = sizeArrays S)"

text \<open>
  The events of a delivery whose POSTs all fail, from the attempt made when
  \<^verbatim>\<open>numRetries\<close> is \<open>n\<close> to the last one, made when it is \<open>N\<close>: a POST, and between
  two POSTs the backoff for the number of attempts made so far.
\<close>

definition attempts :: "env \<Rightarrow> jsval \<Rightarrow> nat \<Rightarrow> nat \<Rightarrow> event list" where
  "attempts E ro n N =
     concat (map (\<lambda>i. [Post ro, Backoff (Suc i) (expBackoff E (Suc i))]) [n..<N]) @ [Post ro]"

definition failedVars :: "jsval \<times> jsval \<times> jsval \<Rightarrow> send_vars" where
  "failedVars reply =
     \<lparr>splunkError = JNull, requestError = fst reply,
      response_var = fst (snd reply), body_var = snd (snd reply)\<rparr>"

text \<open>The backoff waits of a trace, in order: attempt number and delay.\<close>

fun backoffs :: "event list \<Rightarrow> (nat \<times> nat) list" where
  "backoffs [] = []"
| "backoffs (Backoff a d # es) = (a, d) # backoffs es"
| "backoffs (e # es) = backoffs es"

text \<open>
  Settings resolution in closed form. \<open>instanceConfig\<close> is the copy \<^verbatim>\<open>ret\<close> the function
  starts from; \<open>pick\<close> is \<^verbatim>\<open>config.k || ret.k || defaultConfig.k\<close>; \<open>autoFlushOf\<close> is
  the value of lines 258-269; \<open>numberError\<close> is the error of a numeric setting, if any;
  \<open>fieldsOf\<close> is \<^verbatim>\<open>ret\<close> after line 287.
\<close>

definition instanceConfig :: "state \<Rightarrow> jsobj" where
  "instanceConfig S = (case config S of None \<Rightarrow> Map.empty | Some ic \<Rightarrow> ic)"

definition pick :: "jsobj \<Rightarrow> jsobj \<Rightarrow> string \<Rightarrow> jsval" where
  "pick c ret k = js_or (js_or (getp c k) (getp ret k)) (getp defaultConfig k)"

definition autoFlushOf :: "jsobj option \<Rightarrow> jsobj \<Rightarrow> bool" where
  "autoFlushOf this_config c =
     truthy (if hasOwn c ''autoFlush'' then getp c ''autoFlush''
             else (case this_config of
                     Some ic \<Rightarrow> if hasOwn ic ''autoFlush'' then getp ic ''autoFlush'' else JBool True
                   | None \<Rightarrow> JBool True))"

definition numberError :: "string \<Rightarrow> int option \<Rightarrow> error option" where
  "numberError label v =
     (case v of
        None \<Rightarrow> Some (Error (label @ '' must be a number, found: NaN''))
      | Some n \<Rightarrow>
          if n < 0 then Some (Error (label @ '' must be a positive number, found: '' @ number_toString n))
          else None)"

definition fieldsOf :: "jsobj option \<Rightarrow> jsobj \<Rightarrow> jsobj \<Rightarrow> int \<Rightarrow> int \<Rightarrow> int \<Rightarrow> jsobj" where
  "fieldsOf this_config c ret n1 n2 n3 =
     ret(''token'' \<mapsto> js_or (getp c ''token'') (getp ret ''token''),
         ''name'' \<mapsto> pick c ret ''name'',
         ''host'' \<mapsto> pick c ret ''host'',
         ''path'' \<mapsto> pick c ret ''path'',
         ''protocol'' \<mapsto> pick c ret ''protocol'',
         ''level'' \<mapsto> pick c ret ''level'',
         ''maxRetries'' \<mapsto> JNum n1,
         ''autoFlush'' \<mapsto> JBool (autoFlushOf this_config c),
         ''maxBatchSize'' \<mapsto> JNum n2,
         ''batchInterval'' \<mapsto> JNum n3)"

text \<open>The settings resolved with \<^verbatim>\<open>||\<close> alone, and those read with \<^verbatim>\<open>parseInt\<close>.\<close>

definition stringSettings :: "string list" where
  "stringSettings = [''name'', ''host'', ''path'', ''protocol'', ''level'']"

definition numberSettings :: "string list" where
  "numberSettings = [''maxRetries'', ''maxBatchSize'', ''batchInterval'']"


text \<open>The calls of the error sink in a trace.\<close>

fun sinks :: "event list \<Rightarrow> (jsval \<times> jsval) list" where
  "sinks [] = []"
| "sinks (ErrorSink e c # es) = (e, c) # sinks es"
| "sinks (e # es) = sinks es"

text \<open>The calls of the completion callback in a trace.\<close>

fun callbacks :: "event list \<Rightarrow> (jsval \<times> jsval \<times> jsval) list" where
  "callbacks [] = []"
| "callbacks (Callback e r b # es) = (e, r, b) # callbacks es"
| "callbacks (e # es) = callbacks es"

subsection \<open>Concrete loggers, contexts and collaborators\<close>

definition noUrl :: parsed_url where
  "noUrl = \<lparr>url_protocol = None, url_port = None, url_hostname = None, url_path = None\<rparr>"

text \<open>A transport that refuses every POST; the error tells which POST it was.\<close>

definition refused :: "nat \<Rightarrow> jsval" where
  "refused k = JObj [''message'' \<mapsto> JStr ''connect ECONNREFUSED'', ''post'' \<mapsto> JNum (int k)]"

definition failingEnv :: "(nat \<Rightarrow> nat) \<Rightarrow> env" where
  "failingEnv policy =
     \<lparr>url_parse = (\<lambda>u. noUrl), date_now = 0, formatTime = js_toString,
      stringify = (\<lambda>v. []), expBackoff = policy,
      request_post = (\<lambda>ro k. (refused k, JUndefined, JUndefined))\<rparr>"

definition expPolicy :: "nat \<Rightarrow> nat" where
  "expPolicy attempt = 10 * 2 ^ attempt"

definition zeroDelay :: "nat \<Rightarrow> nat" where
  "zeroDelay attempt = 0"

text \<open>A collector that answers every POST with the service error code 1.\<close>

definition rejection :: jsval where
  "rejection = JObj [''text'' \<mapsto> JStr ''Invalid token'', ''code'' \<mapsto> JStr ''1'']"

definition rejectingEnv :: env where
  "rejectingEnv =
     \<lparr>url_parse = (\<lambda>u. noUrl), date_now = 0, formatTime = js_toString,
      stringify = (\<lambda>v. []), expBackoff = expPolicy,
      request_post = (\<lambda>ro k. (JNull, JObj [''statusCode'' \<mapsto> JNum 400], rejection))\<rparr>"

definition retryContext :: "int \<Rightarrow> jsval" where
  "retryContext maxRetries =
     JObj [''message'' \<mapsto> JStr ''hello'',
           ''config'' \<mapsto> JObj [''token'' \<mapsto> JStr ''t'', ''maxRetries'' \<mapsto> JNum maxRetries],
           ''requestOptions'' \<mapsto> JObj [''url'' \<mapsto> JStr ''https://localhost:8088'']]"

text \<open>
  A logger as the constructor leaves it for \<^verbatim>\<open>{token: "t"}\<close>, every other setting at
  its default, with two contexts in its queue and their sizes.
\<close>

definition tokenConfig :: jsobj where
  "tokenConfig = defaultConfig(''token'' \<mapsto> JStr ''t'')"

definition queuedA :: jsval where
  "queuedA = JObj [''message'' \<mapsto> JStr ''first'', ''severity'' \<mapsto> JStr ''info'']"

definition queuedB :: jsval where
  "queuedB = JObj [''message'' \<mapsto> JStr ''second'', ''severity'' \<mapsto> JStr ''info'']"

definition twoQueued :: state where
  "twoQueued =
     \<lparr>timerID = None, timerDuration = 0, config = Some tokenConfig, middlewares = [],
      contextQueue = 0, eventSizes = 0, ctxArrays = [[queuedA, queuedB]],
      sizeArrays = [[40, 41]], intervals = [], timerCount = 0, trace = []\<rparr>"

text \<open>The same logger with \<^verbatim>\<open>autoFlush\<close> off, and with an empty queue.\<close>

definition twoQueuedManual :: state where
  "twoQueuedManual = twoQueued\<lparr>config := Some (tokenConfig(''autoFlush'' \<mapsto> JBool False))\<rparr>"

definition noneQueued :: state where
  "noneQueued = twoQueued\<lparr>ctxArrays := [[]], sizeArrays := [[]]\<rparr>"

definition plainEnv :: env where
  "plainEnv =
     \<lparr>url_parse = (\<lambda>u. noUrl), date_now = 0, formatTime = js_toString,
      stringify = (\<lambda>v. ''{}''), expBackoff = expPolicy,
      request_post = (\<lambda>ro k. (JNull, JObj [''statusCode'' \<mapsto> JNum 200],
                               JObj [''text'' \<mapsto> JStr ''Success'', ''code'' \<mapsto> JNum 0]))\<rparr>"




text \<open>
  Three middlewares. The first sets the severity of the context it receives and hands the
  same object on; the second calls \<^verbatim>\<open>next("not allowed")\<close>, with an error and no
  context; the third hands its context on with the empty string as error.
\<close>

definition passingStep :: middleware where
  "passingStep os context =
     (case context of
        Ref a \<Rightarrow> Some (os(a := setp (os a) ''severity'' (JStr ''warn'')), JNull, Ref a)
      | Val v \<Rightarrow> Some (os, JNull, Val (setp v ''severity'' (JStr ''warn''))))"

definition rejectingStep :: middleware where
  "rejectingStep os context = Some (os, JStr ''not allowed'', Val JUndefined)"

definition emptyErrorStep :: middleware where
  "emptyErrorStep os context = Some (os, JStr [], context)"

text \<open>The logger with two contexts queued and two middlewares, the second one rejecting.\<close>

definition abortLogger :: state where
  "abortLogger = twoQueued\<lparr>middlewares := [passingStep, rejectingStep]\<rparr>"

text \<open>The same logger with the third middleware alone.\<close>

definition emptyErrorLogger :: state where
  "emptyErrorLogger = twoQueued\<lparr>middlewares := [emptyErrorStep]\<rparr>"

text \<open>
  A logger whose instance settings have five retries and the host \<open>splunk.local\<close>, and a
  call-level config that sets three of the settings.
\<close>

definition retryingLogger :: state where
  "retryingLogger =
     noneQueued\<lparr>config := Some (tokenConfig(''maxRetries'' \<mapsto> JNum 5,
                                            ''host'' \<mapsto> JStr ''splunk.local''))\<rparr>"

definition callConfig :: jsobj where
  "callConfig = [''maxRetries'' \<mapsto> JStr ''3'', ''level'' \<mapsto> JStr ''warn'',
                 ''autoFlush'' \<mapsto> JBool False]"

text \<open>
  The logger \<^verbatim>\<open>new SplunkLogger({token: "t", batchInterval: 1000})\<close>: its timer runs
  with a period of 1000 ms. Then the same logger after \<^verbatim>\<open>logger.config.batchInterval = 0\<close>.
\<close>

definition timerSettings :: jsobj where
  "timerSettings =
     [''token'' \<mapsto> JStr ''t'',
      ''name'' \<mapsto> JStr ''splunk-javascript-logging/0.8.0'',
      ''host'' \<mapsto> JStr ''localhost'',
      ''path'' \<mapsto> JStr ''/services/collector/event/1.0'',
      ''protocol'' \<mapsto> JStr ''https'',
      ''level'' \<mapsto> JStr ''info'',
      ''maxRetries'' \<mapsto> JNum 0,
      ''autoFlush'' \<mapsto> JBool True,
      ''maxBatchSize'' \<mapsto> JNum 0,
      ''batchInterval'' \<mapsto> JNum 1000,
      ''port'' \<mapsto> JNum 8088]"

definition timerLogger :: state where
  "timerLogger =
     \<lparr>timerID = Some 0, timerDuration = 1000, config = Some timerSettings, middlewares = [],
      contextQueue = 0, eventSizes = 0, ctxArrays = [[]], sizeArrays = [[]],
      intervals = [(0, 1000)], timerCount = 1, trace = []\<rparr>"

definition zeroedLogger :: state where
  "zeroedLogger = timerLogger\<lparr>config := Some (timerSettings(''batchInterval'' \<mapsto> JNum 0))\<rparr>"

text \<open>
  The request options \<^verbatim>\<open>_initializeRequestOptions\<close> makes from a config object and the
  options it reads; the argument \<^verbatim>\<open>_initializeContext\<close> resolves the settings from; the
  context it returns on a context object \<open>m\<close> whose settings resolved to \<open>r\<close>.
\<close>

definition requestOptionsFrom :: "jsobj \<Rightarrow> jsval \<Rightarrow> jsobj" where
  "requestOptionsFrom r opts =
     [''url'' \<mapsto> JStr (make_url (JObj r)),
      ''json'' \<mapsto> (if hasOwnProperty opts ''json'' then propOf opts ''json'' else JBool True),
      ''strictSSL'' \<mapsto> js_or (propOf opts ''strictSSL'') (JBool False),
      ''headers'' \<mapsto>
         (if truthy (getp r ''token'')
          then setp (js_or (propOf opts ''headers'') (JObj Map.empty)) ''Authorization''
                 (JStr (''Splunk '' @ js_toString (getp r ''token'')))
          else js_or (propOf opts ''headers'') (JObj Map.empty))]"

definition contextArg :: "jsobj \<Rightarrow> cfg_arg" where
  "contextArg m = (if truthy (getp m ''config'') then Arg (getp m ''config'') else ThisConfig)"

definition normalized :: "state \<Rightarrow> jsobj \<Rightarrow> jsobj \<Rightarrow> jsval" where
  "normalized S1 r m =
     JObj (m(''config'' \<mapsto> JObj r,
             ''requestOptions'' \<mapsto>
                JObj (initializeRequestOptions S1 (JObj r) (getp m ''requestOptions'')),
             ''message'' \<mapsto> getp m ''message'',
             ''severity'' \<mapsto> js_or (getp m ''severity'') (JStr levels_INFO),
             ''metadata'' \<mapsto>
                (if truthy (getp m ''metadata'') then getp m ''metadata''
                 else JObj Map.empty)))"

text \<open>
  Two contexts for the logger \<open>retryingLogger\<close>, each with a call-level config, and the
  second of them normalized once and twice.
\<close>

definition warnContext :: jsval where
  "warnContext = JObj [''message'' \<mapsto> JStr ''second'', ''config'' \<mapsto> JObj callConfig]"

definition zeroRetriesContext :: jsval where
  "zeroRetriesContext =
     JObj [''message'' \<mapsto> JStr ''second'', ''config'' \<mapsto> JObj [''maxRetries'' \<mapsto> JStr ''0'']]"

definition zeroRetriesOnce :: "state \<times> (error + jsval)" where
  "zeroRetriesOnce = initializeContext plainEnv retryingLogger zeroRetriesContext"

definition zeroRetriesTwice :: "state \<times> (error + jsval)" where
  "zeroRetriesTwice
     = initializeContext plainEnv (fst zeroRetriesOnce) (projr (snd zeroRetriesOnce))"

section \<open>Numbers\<close>

text \<open>An integer below \<open>2 ^ 53\<close> in magnitude is a double.\<close>

lemma bitlen_le: "n < 2 ^ k \<Longrightarrow> bitlen n \<le> k"
proof (induction k arbitrary: n)
  case 0
  then show ?case by (simp add: bitlen.simps)
next
  case (Suc k)
  then have "n div 2 < 2 ^ k" by simp
  from Suc.IH[OF this] show ?case
    by (subst bitlen.simps) simp
qed

lemma nearest_nat_small: "n < 2 ^ 53 \<Longrightarrow> nearest_nat n = n"
  using bitlen_le[of n 53] by (simp add: nearest_nat_def)

lemma nearest_number_small: "\<bar>i\<bar> < 2 ^ 53 \<Longrightarrow> nearest_number i = i"
  by (simp add: nearest_number_def nearest_nat_small)

text \<open>\<^verbatim>\<open>parseInt\<close> of a number below \<open>10 ^ 21\<close> is the number.\<close>

lemma parseInt_small [simp]: "\<bar>n\<bar> < 10 ^ 21 \<Longrightarrow> parseInt (JNum n) = Some n"
  by simp

declare parseInt.simps(1) [simp del]

lemma default_numbers:
  "getp defaultConfig ''maxRetries'' = JNum 0" "getp defaultConfig ''maxBatchSize'' = JNum 0"
  "getp defaultConfig ''batchInterval'' = JNum 0"
  by (simp_all add: defaultConfig_def getp_def)

lemma default_number: "k \<in> set numberSettings \<Longrightarrow> getp defaultConfig k = JNum 0"
  by (auto simp: numberSettings_def default_numbers)

text \<open>
  The strings the numbers \<open>0\<close> and \<open>10 ^ 21\<close> print as, and what \<^verbatim>\<open>parseInt\<close> reads
  in the second.
\<close>

lemma char_of_digits:
  "char_of (48::nat) = CHR ''0''" "char_of (49::nat) = CHR ''1''"
  "char_of (50::nat) = CHR ''2''"
  by (simp_all add: char_of_def bit_Suc bit_0)

lemma number_toString_0: "number_toString 0 = ''0''"
  by (simp add: number_toString_def show_int_def digit_char_def char_of_digits)

lemma bitlen_1e21: "bitlen 1000000000000000000000 = 70"
  by (simp add: bitlen.simps)

lemma nearest_nat_1e21: "nearest_nat 1000000000000000000000 = 1000000000000000000000"
  by (simp add: nearest_nat_def bitlen_1e21 Let_def)

lemma declen_1e21: "declen 1000000000000000000000 = 22"
  by (simp add: declen.simps)

lemma shortest_at_1e21: "shortest_at 1000000000000000000000 1 = Some 1000000000000000000000"
  unfolding shortest_at_def declen_1e21 Let_def using nearest_nat_1e21 by simp

lemma shortest_1e21: "shortest 1000000000000000000000 = 1000000000000000000000"
proof -
  have "[1..<18] = (1::nat) # [2..<18]" by (simp add: upt_rec)
  then show ?thesis
    unfolding shortest_def by (simp only: first_some.simps shortest_at_1e21 option.case)
qed

lemma show_nat_1e21: "show_nat 1000000000000000000000 = ''1000000000000000000000''"
  by (simp add: digit_char_def char_of_digits)

lemma exponent_form_1e21: "exponent_form 1000000000000000000000 = ''1e+21''"
  unfolding exponent_form_def shortest_1e21 show_nat_1e21 Let_def
  by (simp add: digit_char_def char_of_digits)

lemma number_toString_1e21: "number_toString 1000000000000000000000 = ''1e+21''"
  unfolding number_toString_def by (simp add: exponent_form_1e21)

lemma parseInt_1e21: "parseInt (JNum 1000000000000000000000) = Some 1"
  by (simp add: parseInt.simps(1) number_toString_1e21 parseInt_str_def parse_digits_def
        digits_val_def is_digit_def is_space_def nearest_number_small)



section \<open>Delivery: retries and service errors\<close>

lemma postCount_append: "postCount (xs @ ys) = postCount xs + postCount ys"
  by (simp add: postCount_def)

lemma postCount_simps:
  "postCount [] = 0"
  "postCount (Post ro # xs) = Suc (postCount xs)"
  "postCount (Backoff a d # xs) = postCount xs"
  "postCount (ErrorSink e c # xs) = postCount xs"
  "postCount (Callback e r b # xs) = postCount xs"
  by (simp_all add: postCount_def)

lemma attempts_last: "attempts E ro N N = [Post ro]"
  by (simp add: attempts_def)

lemma attempts_step:
  "n < N \<Longrightarrow>
   attempts E ro n N = Post ro # Backoff (Suc n) (expBackoff E (Suc n)) # attempts E ro (Suc n) N"
  by (simp add: attempts_def upt_conv_Cons)

lemma postCount_attempts: "n \<le> N \<Longrightarrow> postCount (attempts E ro n N) = Suc (N - n)"
proof (induction "N - n" arbitrary: n)
  case 0
  then show ?case by (simp add: attempts_last postCount_simps)
next
  case (Suc d)
  then have "n < N" by simp
  with Suc show ?case
    by (simp add: attempts_step postCount_simps Suc_diff_Suc)
qed

lemma backoffs_attempts:
  "n \<le> N \<Longrightarrow> backoffs (attempts E ro n N) = map (\<lambda>a. (a, expBackoff E a)) [Suc n..<Suc N]"
proof (induction "N - n" arbitrary: n)
  case 0
  then show ?case by (simp add: attempts_last)
next
  case (Suc d)
  then have lt: "n < N" by simp
  then have "[Suc n..<Suc N] = Suc n # [Suc (Suc n)..<Suc N]"
    by (simp add: upt_conv_Cons)
  with Suc lt show ?case
    by (simp add: attempts_step)
qed





text \<open>A delivery whose first POST the collector accepts.\<close>

lemma sendEvents_delivered:
  assumes "\<not> nullish (propOf c ''config'')"
    and "num_le (Some 0) (toNumber (maxRetriesOf c))"
    and "request_post E (propOf c ''requestOptions'') (postCount (trace S)) = (err, resp, body)"
    and "\<not> truthy err" and "truthy body" and "\<not> nullish (propOf body ''code'')"
    and "js_toString (propOf body ''code'') = ''0''"
  shows "sendEvents E S c =
           (S\<lparr>trace := trace S @ [Post (propOf c ''requestOptions''), Callback err resp body]\<rparr>,
            Inr ())"
proof -
  have w: "whilst_sendEvents E c S 0 v =
             (S\<lparr>trace := trace S @ [Post (propOf c ''requestOptions'')]\<rparr>, Suc 0,
              \<lparr>splunkError = JNull, requestError = err, response_var = resp, body_var = body\<rparr>,
              None)" for v
    using assms
    by (subst whilst_sendEvents.simps) (simp add: post_def onResponse_def)
  show ?thesis
    unfolding sendEvents_def w using assms(4) by simp
qed

text \<open>
  The loop of \<^verbatim>\<open>_sendEvents\<close> when no POST gets through: from \<^verbatim>\<open>numRetries = n\<close> it
  makes the attempts up to \<open>N\<close> and keeps the answer to the last POST.
\<close>

lemma whilst_all_fail:
  assumes cfg: "\<not> nullish (propOf context ''config'')"
    and mr: "toNumber (maxRetriesOf context) = Some (int N)"
    and fail: "\<And>k. truthy (fst (request_post E (propOf context ''requestOptions'') k))"
  shows "n \<le> N \<Longrightarrow>
     whilst_sendEvents E context S n v =
       (S\<lparr>trace := trace S @ attempts E (propOf context ''requestOptions'') n N\<rparr>, Suc N,
        failedVars (request_post E (propOf context ''requestOptions'')
                      (postCount (trace S) + (N - n))),
        None)"
proof (induction "N - n" arbitrary: n S v)
  case 0
  then have nN: "n = N" by simp
  obtain err resp body
    where r: "request_post E (propOf context ''requestOptions'') (postCount (trace S))
                = (err, resp, body)"
    by (cases "request_post E (propOf context ''requestOptions'') (postCount (trace S))") auto
  have t: "truthy err" using fail[of "postCount (trace S)"] r by simp
  show ?case
    by (subst whilst_sendEvents.simps)
       (simp add: cfg mr nN num_le_def post_def onResponse_def r t attempts_last failedVars_def)
next
  case (Suc d)
  then have lt: "n < N" and d: "d = N - Suc n" and le: "Suc n \<le> N" by simp_all
  obtain err resp body
    where r: "request_post E (propOf context ''requestOptions'') (postCount (trace S))
                = (err, resp, body)"
    by (cases "request_post E (propOf context ''requestOptions'') (postCount (trace S))") auto
  have t: "truthy err" using fail[of "postCount (trace S)"] r by simp
  let ?S2 = "S\<lparr>trace := trace S @ [Post (propOf context ''requestOptions''),
                                    Backoff (Suc n) (expBackoff E (Suc n))]\<rparr>"
  have step: "whilst_sendEvents E context S n v =
      whilst_sendEvents E context ?S2 (Suc n)
        \<lparr>splunkError = JNull, requestError = err, response_var = resp, body_var = body\<rparr>"
    using lt
    by (subst whilst_sendEvents.simps)
       (simp add: cfg mr num_le_def post_def onResponse_def r t)
  have pc: "postCount (trace ?S2) + (N - Suc n) = postCount (trace S) + (N - n)"
    using lt by (simp add: postCount_append postCount_simps)
  show ?case
    unfolding step
    apply (subst Suc.hyps(1)[OF d le])
    apply (simp only: pc)
    using lt apply (simp add: attempts_step)
    done
qed

lemma sendEvents_all_fail:
  assumes cfg: "\<not> nullish (propOf context ''config'')"
    and mr: "toNumber (maxRetriesOf context) = Some (int N)"
    and fail: "\<And>k. truthy (fst (request_post E (propOf context ''requestOptions'') k))"
    and last: "request_post E (propOf context ''requestOptions'') (postCount (trace S) + N)
                 = (err, resp, body)"
  shows "sendEvents E S context =
       (S\<lparr>trace := trace S @ attempts E (propOf context ''requestOptions'') 0 N
                     @ [ErrorSink err context, Callback err resp body]\<rparr>, Inr ())"
proof -
  have t: "truthy err" using fail[of "postCount (trace S) + N"] last by simp
  show ?thesis
    unfolding sendEvents_def
    apply (subst whilst_all_fail[OF cfg mr fail, of 0])
     apply simp
    apply (simp add: last failedVars_def t js_or_def)
    done
qed

lemma delays_increasing:
  assumes "\<And>a b. 1 \<le> a \<Longrightarrow> a < b \<Longrightarrow> b \<le> N \<Longrightarrow> policy a < policy b"
  shows "sorted_wrt (<) (map policy [1..<Suc N])"
proof -
  have "sorted_wrt (<) [1..<Suc N]"
    by (rule sorted_wrt_upt)
  then have "sorted_wrt (\<lambda>a b. policy a < policy b) [1..<Suc N]"
    by (rule sorted_wrt_mono_rel[rotated]) (use assms in auto)
  then show ?thesis by (simp add: sorted_wrt_map)
qed

lemma failingEnv_sel:
  "expBackoff (failingEnv policy) = policy"
  "request_post (failingEnv policy) ro k = (refused k, JUndefined, JUndefined)"
  by (simp_all add: failingEnv_def)

lemma retryContext_sel:
  "\<not> nullish (propOf (retryContext m) ''config'')"
  "toNumber (maxRetriesOf (retryContext m)) = Some m"
  "propOf (retryContext m) ''requestOptions'' = JObj [''url'' \<mapsto> JStr ''https://localhost:8088'']"
  by (simp_all add: retryContext_def maxRetriesOf_def getp_def nullish_def)

lemma emptyState_trace: "trace emptyState = []"
  by (simp add: emptyState_def)

text \<open>
  C1, as amended. With \<^verbatim>\<open>maxRetries = N\<close> and a transport that fails every POST,
  \<^verbatim>\<open>_sendEvents\<close> makes exactly \<open>N + 1\<close> POSTs; between two consecutive POSTs it waits
  once, for the delay the backoff policy gives for the attempt number, and the attempt
  numbers are \<open>1, ..., N\<close> in this order; so the delays increase strictly whenever the
  policy does on \<open>1, ..., N\<close>. Then the error sink and the completion callback are each
  called once, with the error of the last POST.
\<close>

theorem retry_bound_and_backoff:
  assumes "\<not> nullish (propOf context ''config'')"
    and "toNumber (maxRetriesOf context) = Some (int N)"
    and "\<And>k. truthy (fst (request_post E (propOf context ''requestOptions'') k))"
    and "request_post E (propOf context ''requestOptions'') (postCount (trace S) + N)
           = (err, resp, body)"
  shows "sendEvents E S context =
           (S\<lparr>trace := trace S @ attempts E (propOf context ''requestOptions'') 0 N
                         @ [ErrorSink err context, Callback err resp body]\<rparr>, Inr ())
         \<and> postCount (attempts E (propOf context ''requestOptions'') 0 N) = N + 1
         \<and> backoffs (attempts E (propOf context ''requestOptions'') 0 N)
             = map (\<lambda>a. (a, expBackoff E a)) [1..<N + 1]
         \<and> ((\<forall>a b. 1 \<le> a \<and> a < b \<and> b \<le> N \<longrightarrow> expBackoff E a < expBackoff E b)
              \<longrightarrow> sorted_wrt (<)
                    (map snd (backoffs (attempts E (propOf context ''requestOptions'') 0 N))))"
proof (intro conjI impI)
  show "sendEvents E S context =
           (S\<lparr>trace := trace S @ attempts E (propOf context ''requestOptions'') 0 N
                         @ [ErrorSink err context, Callback err resp body]\<rparr>, Inr ())"
    using assms by (rule sendEvents_all_fail)
  show "postCount (attempts E (propOf context ''requestOptions'') 0 N) = N + 1"
    by (simp add: postCount_attempts)
  show b: "backoffs (attempts E (propOf context ''requestOptions'') 0 N)
             = map (\<lambda>a. (a, expBackoff E a)) [1..<N + 1]"
    by (simp add: backoffs_attempts)
  assume "\<forall>a b. 1 \<le> a \<and> a < b \<and> b \<le> N \<longrightarrow> expBackoff E a < expBackoff E b"
  then have "sorted_wrt (<) (map (expBackoff E) [1..<Suc N])"
    by (intro delays_increasing) blast
  then show "sorted_wrt (<)
       (map snd (backoffs (attempts E (propOf context ''requestOptions'') 0 N)))"
    by (simp add: b comp_def)
qed

theorem retry_bound_and_backoff_witness:
  "sendEvents (failingEnv expPolicy) emptyState (retryContext 2) =
     (emptyState\<lparr>trace :=
        [Post (JObj [''url'' \<mapsto> JStr ''https://localhost:8088'']), Backoff 1 20,
         Post (JObj [''url'' \<mapsto> JStr ''https://localhost:8088'']), Backoff 2 40,
         Post (JObj [''url'' \<mapsto> JStr ''https://localhost:8088'']),
         ErrorSink (refused 2) (retryContext 2),
         Callback (refused 2) JUndefined JUndefined]\<rparr>, Inr ())
   \<and> sorted_wrt (<)
        (map snd (backoffs (attempts (failingEnv expPolicy)
                              (propOf (retryContext 2) ''requestOptions'') 0 2)))"
proof -
  have fail: "\<And>k. truthy (fst (request_post (failingEnv expPolicy)
                                  (propOf (retryContext 2) ''requestOptions'') k))"
    by (simp add: failingEnv_sel refused_def)
  have mono: "\<forall>a b. 1 \<le> a \<and> a < b \<and> b \<le> 2 \<longrightarrow>
                expBackoff (failingEnv expPolicy) a < expBackoff (failingEnv expPolicy) b"
    by (simp add: failingEnv_sel expPolicy_def)
  have last: "request_post (failingEnv expPolicy) (propOf (retryContext 2) ''requestOptions'')
                (postCount (trace emptyState) + 2) = (refused 2, JUndefined, JUndefined)"
    by (simp add: failingEnv_sel emptyState_def postCount_simps refused_def)
  have mr: "toNumber (maxRetriesOf (retryContext 2)) = Some (int 2)"
    by (simp add: retryContext_sel)
  note th = retry_bound_and_backoff[OF retryContext_sel(1) mr fail last]
  have a: "attempts (failingEnv expPolicy) (propOf (retryContext 2) ''requestOptions'') 0 2 =
      [Post (JObj [''url'' \<mapsto> JStr ''https://localhost:8088'']), Backoff 1 20,
       Post (JObj [''url'' \<mapsto> JStr ''https://localhost:8088'']), Backoff 2 40,
       Post (JObj [''url'' \<mapsto> JStr ''https://localhost:8088''])]"
    by (simp add: attempts_step attempts_last failingEnv_sel retryContext_sel expPolicy_def
                  numeral_2_eq_2)
  from th mono have s: "sorted_wrt (<)
        (map snd (backoffs (attempts (failingEnv expPolicy)
                              (propOf (retryContext 2) ''requestOptions'') 0 2)))"
    by blast
  from th have e: "sendEvents (failingEnv expPolicy) emptyState (retryContext 2) =
      (emptyState\<lparr>trace := trace emptyState
          @ attempts (failingEnv expPolicy) (propOf (retryContext 2) ''requestOptions'') 0 2
          @ [ErrorSink (refused 2) (retryContext 2),
             Callback (refused 2) JUndefined JUndefined]\<rparr>, Inr ())"
    by blast
  show ?thesis
    using s by (simp add: e a emptyState_trace)
qed

text \<open>
  C1 as stated fails: under the zero-delay policy two retries wait \<open>0\<close> and \<open>0\<close>, which
  is not a strictly increasing sequence of delays.
\<close>

theorem retry_delays_counterexample:
  "snd (sendEvents (failingEnv zeroDelay) emptyState (retryContext 2)) = Inr ()
   \<and> map snd (backoffs (trace (fst (sendEvents (failingEnv zeroDelay) emptyState
                                      (retryContext 2))))) = [0, 0]
   \<and> \<not> sorted_wrt (<) (map snd (backoffs (trace (fst (sendEvents (failingEnv zeroDelay)
                                      emptyState (retryContext 2))))))"
proof -
  have fail: "\<And>k. truthy (fst (request_post (failingEnv zeroDelay)
                                  (propOf (retryContext 2) ''requestOptions'') k))"
    by (simp add: failingEnv_sel refused_def)
  have last: "request_post (failingEnv zeroDelay) (propOf (retryContext 2) ''requestOptions'')
                (postCount (trace emptyState) + 2) = (refused 2, JUndefined, JUndefined)"
    by (simp add: failingEnv_sel emptyState_def postCount_simps refused_def)
  have mr: "toNumber (maxRetriesOf (retryContext 2)) = Some (int 2)"
    by (simp add: retryContext_sel)
  note th = sendEvents_all_fail[OF retryContext_sel(1) mr fail last]
  have a: "map snd (backoffs (attempts (failingEnv zeroDelay)
                                (propOf (retryContext 2) ''requestOptions'') 0 2)) = [0, 0]"
    by (simp add: attempts_step attempts_last failingEnv_sel zeroDelay_def numeral_2_eq_2)
  have b: "backoffs (xs @ [ErrorSink e c, Callback e' r b']) = backoffs xs" for xs e c e' r b'
    by (induction xs rule: backoffs.induct) simp_all
  have c: "backoffs (trace (fst (sendEvents (failingEnv zeroDelay) emptyState (retryContext 2))))
             = backoffs (attempts (failingEnv zeroDelay)
                           (propOf (retryContext 2) ''requestOptions'') 0 2)"
    using b[of "attempts (failingEnv zeroDelay) (propOf (retryContext 2) ''requestOptions'') 0 2"]
    by (simp add: th emptyState_trace)
  show ?thesis
    by (simp add: c a) (simp add: th)
qed

text \<open>
  C2. When the POST gets through (no transport error) and the body of the answer carries
  a code other than \<open>0\<close>, \<^verbatim>\<open>_sendEvents\<close> makes exactly one POST whatever
  \<^verbatim>\<open>maxRetries\<close> is, calls the error sink once, with the service error, and calls the
  completion callback with the transport's (absent) error, never with the service error.
\<close>

theorem service_error_not_retried:
  assumes "\<not> nullish (propOf context ''config'')"
    and "toNumber (maxRetriesOf context) = Some N" and "0 \<le> N"
    and "request_post E (propOf context ''requestOptions'') (postCount (trace S))
           = (err, resp, body)"
    and "\<not> truthy err" and "truthy body" and "\<not> nullish (propOf body ''code'')"
    and "js_toString (propOf body ''code'') \<noteq> ''0''"
  shows "sendEvents E S context =
           (S\<lparr>trace := trace S @ [Post (propOf context ''requestOptions''),
                                   ErrorSink (serviceError body) context,
                                   Callback err resp body]\<rparr>, Inr ())"
  unfolding sendEvents_def
  by (subst whilst_sendEvents.simps)
     (simp add: assms num_le_def post_def onResponse_def js_or_def serviceError_def)

theorem service_error_not_retried_witness:
  "sendEvents rejectingEnv emptyState (retryContext 3) =
     (emptyState\<lparr>trace :=
        [Post (JObj [''url'' \<mapsto> JStr ''https://localhost:8088'']),
         ErrorSink (JObj [''message'' \<mapsto> JStr ''Invalid token'', ''code'' \<mapsto> JStr ''1''])
                   (retryContext 3),
         Callback JNull (JObj [''statusCode'' \<mapsto> JNum 400]) rejection]\<rparr>, Inr ())"
proof -
  have reply: "request_post rejectingEnv (propOf (retryContext 3) ''requestOptions'')
                 (postCount (trace emptyState))
               = (JNull, JObj [''statusCode'' \<mapsto> JNum 400], rejection)"
    by (simp add: rejectingEnv_def)
  have code: "js_toString (propOf rejection ''code'') \<noteq> ''0''"
    by (simp add: rejection_def getp_def)
  have nn: "\<not> nullish (propOf rejection ''code'')"
    by (simp add: rejection_def getp_def nullish_def)
  have tb: "truthy rejection" by (simp add: rejection_def)
  have se: "serviceError rejection
              = JObj [''message'' \<mapsto> JStr ''Invalid token'', ''code'' \<mapsto> JStr ''1'']"
    by (simp add: serviceError_def rejection_def getp_def)
  from service_error_not_retried[OF retryContext_sel(1) retryContext_sel(2) _ reply _ tb nn code]
  show ?thesis
    by (simp add: retryContext_sel emptyState_def se)
qed


section \<open>What each operation leaves alone\<close>

lemma frame_refl: "frame S S"
  by (simp add: frame_def)

lemma frame_trans: "frame S S1 \<Longrightarrow> frame S1 S2 \<Longrightarrow> frame S S2"
  by (simp add: frame_def)

lemma sameQueues_refl: "sameQueues S S"
  by (simp add: sameQueues_def)

lemma sameQueues_trans: "sameQueues S S1 \<Longrightarrow> sameQueues S1 S2 \<Longrightarrow> sameQueues S S2"
  by (simp add: sameQueues_def)

lemma frame_sameQueues: "frame S S' \<Longrightarrow> sameQueues S S'"
  by (simp add: frame_def sameQueues_def)

lemma sameQueues_trace: "sameQueues S (S\<lparr>trace := t\<rparr>)"
  by (simp add: sameQueues_def)

lemma disableTimer_frame: "frame S (disableTimer S)"
  by (simp add: disableTimer_def frame_def split: option.splits)

lemma enableTimer_frame: "frame S (fst (enableTimer S v))"
  by (cases v) (simp_all add: enableTimer_def frame_def disableTimer_def Let_def split: option.splits)

lemma upsertTimer_frame: "frame S (fst (upsertTimer S r))"
  using enableTimer_frame[of S] disableTimer_frame[of S] frame_refl[of S]
  by (simp add: upsertTimer_def Let_def)

lemma initializeConfig_frame: "frame S (fst (initializeConfig E S a))"
proof -
  have 1: "frame S (case a of ThisConfig \<Rightarrow> S\<lparr>config := Some c\<rparr> | Arg v \<Rightarrow> S)" for c
    by (cases a) (simp_all add: frame_def)
  have 2: "frame S (fst (upsertTimer (case a of ThisConfig \<Rightarrow> S\<lparr>config := Some c\<rparr> | Arg v \<Rightarrow> S) r))" for c r
    using frame_trans[OF 1 upsertTimer_frame] .
  show ?thesis
    unfolding initializeConfig_def Let_def
    apply (simp split: sum.split prod.split add: frame_refl 1)
    apply (intro allI impI conjI)
    using 2 apply (metis fst_conv)+
    done
qed

lemma initializeContext_frame: "frame S (fst (initializeContext E S c))"
proof -
  obtain S1 r where ic: "initializeConfig E S
                (if truthy (propOf c ''config'') then Arg (propOf c ''config'')
                 else ThisConfig) = (S1, r)"
    by (cases "initializeConfig E S
                (if truthy (propOf c ''config'') then Arg (propOf c ''config'')
                 else ThisConfig)") auto
  have f: "frame S S1" using initializeConfig_frame[of S E] ic by (metis fst_conv)
  show ?thesis
    unfolding initializeContext_def Let_def ic
    by (simp add: frame_refl f split: sum.split)
qed

lemma onResponse_sameQueues: "sameQueues S (fst (onResponse E c S n reply))"
  by (cases reply) (simp add: onResponse_def Let_def sameQueues_def)

lemma whilst_sameQueues: "sameQueues S (fst (whilst_sendEvents E ctx S n v))"
proof (induction E ctx S n v rule: whilst_sendEvents.induct)
  case (1 E ctx S n v)
  let ?ro = "propOf ctx ''requestOptions''"
  obtain S1 reply where p: "post E S ?ro = (S1, reply)" by (cases "post E S ?ro") auto
  obtain S2 v2 sg where o: "onResponse E ctx S1 (Suc n) reply = (S2, v2, sg)"
    by (cases "onResponse E ctx S1 (Suc n) reply") auto
  have q1: "sameQueues S S1" using p by (auto simp: post_def sameQueues_def)
  have q2: "sameQueues S1 S2" using onResponse_sameQueues[of S1 E ctx "Suc n" reply] o by simp
  have q: "sameQueues S S2" using q1 q2 by (rule sameQueues_trans)
  show ?case
  proof (cases "\<not> nullish (propOf ctx ''config'')
                 \<and> num_le (Some (int n)) (toNumber (maxRetriesOf ctx))")
    case False
    then show ?thesis
      by (subst whilst_sendEvents.simps) (auto simp: sameQueues_refl)
  next
    case True
    show ?thesis
    proof (cases sg)
      case Again
      have "sameQueues S2 (fst (whilst_sendEvents E ctx S2 (Suc n) v2))"
        using 1[of S1 reply S2 "(v2, sg)" v2 sg] True Again p o by simp
      with q have "sameQueues S (fst (whilst_sendEvents E ctx S2 (Suc n) v2))"
        by (rule sameQueues_trans)
      then show ?thesis
        using True Again by (subst whilst_sendEvents.simps) (simp add: p o)
    next
      case Done
      then show ?thesis
        using True q by (subst whilst_sendEvents.simps) (simp add: p o)
    next
      case (Thrown e)
      then show ?thesis
        using True q by (subst whilst_sendEvents.simps) (simp add: p o)
    qed
  qed
qed


lemma sendEvents_sameQueues: "sameQueues S (fst (sendEvents E S c))"
proof -
  obtain S1 n v r where w: "whilst_sendEvents E c S 0
             \<lparr>splunkError = JNull, requestError = JNull, response_var = JNull, body_var = JNull\<rparr>
             = (S1, n, v, r)"
    by (metis prod_cases4)
  have "sameQueues S S1"
    using whilst_sameQueues[of S E c 0] w by (metis fst_conv)
  then show ?thesis
    unfolding sendEvents_def w
    by (cases r) (simp_all add: sameQueues_def Let_def)
qed

lemma afterChain_sameQueues: "sameQueues S (fst (afterChain E S b os err pc))"
proof -
  obtain S1 r where ic: "initializeContext E S (passedOr os pc) = (S1, r)"
    by (cases "initializeContext E S (passedOr os pc)") auto
  have q: "sameQueues S S1"
    using initializeContext_frame[of S E "passedOr os pc"] ic frame_sameQueues
    by (metis fst_conv)
  have s: "sameQueues S (fst (sendEvents E S1 x))" for x
    using q sendEvents_sameQueues by (rule sameQueues_trans)
  show ?thesis
    unfolding afterChain_def Let_def ic
    by (simp add: sameQueues_trace q s split: sum.split)
qed

lemma pipeline_sameQueues: "sameQueues S (fst (pipeline E S b c0))"
proof -
  obtain S1 r where ic: "initializeContext E S c0 = (S1, r)"
    by (cases "initializeContext E S c0") auto
  have q: "sameQueues S S1"
    using initializeContext_frame[of S E c0] ic frame_sameQueues by (metis fst_conv)
  have s: "sameQueues S (fst (afterChain E S1 b x e p))" for x e p
    using q afterChain_sameQueues by (rule sameQueues_trans)
  show ?thesis
    unfolding pipeline_def ic
    by (simp add: q s split: sum.split option.split)
qed

lemma getp_upd [simp]: "getp (m(k \<mapsto> v)) k' = (if k' = k then v else getp m k')"
  by (simp add: getp_def)

lemma hasOwn_upd [simp]: "hasOwn (m(k \<mapsto> v)) k' = (k' = k \<or> hasOwn m k')"
  by (simp add: hasOwn_def)

lemma getp_empty [simp]: "getp Map.empty k = JUndefined"
  by (simp add: getp_def)

lemma hasOwn_empty [simp]: "hasOwn Map.empty k = False"
  by (simp add: hasOwn_def)

lemma falsy_metadata:
  assumes "\<not> truthy md" and "\<not> nullish md"
  shows "copyKey md k dst = dst"
  using assms by (cases md) (simp_all add: copyKey_def nullish_def)

lemma initializeContext_obj:
  assumes "initializeConfig E S
             (if truthy (getp m ''config'') then Arg (getp m ''config'') else ThisConfig)
           = (S1, Inr r)"
    and "hasOwn m ''message''" and "\<not> nullish (getp m ''message'')"
    and "\<not> (hasOwn m ''metadata'' \<and> nullish (getp m ''metadata''))"
  shows "initializeContext E S (JObj m) =
     (S1, Inr (JObj (m(''config'' \<mapsto> JObj r,
                       ''requestOptions'' \<mapsto>
                          JObj (initializeRequestOptions S1 (JObj r) (getp m ''requestOptions'')),
                       ''message'' \<mapsto> getp m ''message'',
                       ''severity'' \<mapsto> js_or (getp m ''severity'') (JStr levels_INFO),
                       ''metadata'' \<mapsto>
                          (if truthy (getp m ''metadata'') then getp m ''metadata''
                           else JObj Map.empty)))))"
proof -
  have msg: "initializeMessage (getp m ''message'') = Inr (getp m ''message'')"
    using assms(3) by (cases "getp m ''message''") (simp_all add: initializeMessage_def nullish_def)
  have md: "\<not> truthy (getp m ''metadata'') \<Longrightarrow>
      initializeMetadata (JObj (m(''config'' \<mapsto> c, ''requestOptions'' \<mapsto> ro,
                                  ''message'' \<mapsto> ms, ''severity'' \<mapsto> sv))) = Inr Map.empty"
    for c ro ms sv
    using assms(4)
    by (auto simp: initializeMetadata_def Let_def falsy_metadata)
  show ?thesis
  proof (cases "truthy (getp m ''config'')")
    case True
    with assms(1) have "initializeConfig E S (Arg (getp m ''config'')) = (S1, Inr r)" by simp
    with True assms(2) show ?thesis
      unfolding initializeContext_def by (simp add: msg md Let_def)
  next
    case False
    with assms(1) have "initializeConfig E S ThisConfig = (S1, Inr r)" by simp
    with False assms(2) show ?thesis
      unfolding initializeContext_def by (simp add: msg md Let_def)
  qed
qed

text \<open>\<^verbatim>\<open>_initializeContext\<close> on an object, and what a context it returns comes from.\<close>

lemma initializeContext_JObj:
  "initializeContext E S (JObj m) =
     (if \<not> hasOwn m ''message''
      then (S, Inl (Error ''Context argument must have the message property set.''))
      else (case initializeConfig E S (contextArg m) of
              (S1, Inl e) \<Rightarrow> (S1, Inl e)
            | (S1, Inr r) \<Rightarrow>
                if nullish (getp m ''message'')
                then (S1, Inl (Error ''Message argument is required.''))
                else if hasOwn m ''metadata'' \<and> nullish (getp m ''metadata'')
                  then (S1, Inl (TypeError ''Cannot read property hasOwnProperty''))
                else (S1, Inr (normalized S1 r m))))"
proof (cases "hasOwn m ''message''")
  case False
  then show ?thesis by (simp add: initializeContext_def)
next
  case hm: True
  obtain S1 res where ic: "initializeConfig E S (contextArg m) = (S1, res)"
    by (cases "initializeConfig E S (contextArg m)") auto
  have ic': "initializeConfig E S
               (if truthy (getp m ''config'') then Arg (getp m ''config'') else ThisConfig)
             = (S1, res)"
    using ic by (simp add: contextArg_def)
  show ?thesis
  proof (cases res)
    case (Inl e)
    with hm ic ic' show ?thesis
      by (cases "truthy (getp m ''config'')") (simp_all add: initializeContext_def)
  next
    case (Inr r)
    show ?thesis
    proof (cases "nullish (getp m ''message'')")
      case True
      then have "initializeMessage (getp m ''message'')
                   = Inl (Error ''Message argument is required.'')"
        by (cases "getp m ''message''") (simp_all add: initializeMessage_def nullish_def)
      with hm ic ic' Inr True show ?thesis
        by (cases "truthy (getp m ''config'')") (simp_all add: initializeContext_def Let_def)
    next
      case nm: False
      show ?thesis
      proof (cases "hasOwn m ''metadata'' \<and> nullish (getp m ''metadata'')")
        case True
        then have f: "\<not> truthy (getp m ''metadata'')"
          by (cases "getp m ''metadata''") (simp_all add: nullish_def)
        have msg: "initializeMessage (getp m ''message'') = Inr (getp m ''message'')"
          using nm by (cases "getp m ''message''") (simp_all add: initializeMessage_def nullish_def)
        have "initializeMetadata (JObj (m(''config'' \<mapsto> c, ''requestOptions'' \<mapsto> ro,
                                  ''message'' \<mapsto> ms, ''severity'' \<mapsto> sv)))
            = Inl (TypeError ''Cannot read property hasOwnProperty'')" for c ro ms sv
          using True by (simp add: initializeMetadata_def Let_def)
        with hm ic ic' Inr nm True f msg show ?thesis
          by (cases "truthy (getp m ''config'')") (simp_all add: initializeContext_def Let_def)
      next
        case False
        from initializeContext_obj[OF ic'[unfolded Inr] hm nm False]
        show ?thesis
          using hm ic Inr nm False by (simp add: normalized_def)
      qed
    qed
  qed
qed

lemma initializeContext_Inr:
  assumes "initializeContext E S ctx = (S1, Inr ctx1)"
  obtains m r where "ctx = JObj m" and "initializeConfig E S (contextArg m) = (S1, Inr r)"
    and "hasOwn m ''message''" and "\<not> nullish (getp m ''message'')"
    and "\<not> (hasOwn m ''metadata'' \<and> nullish (getp m ''metadata''))"
    and "ctx1 = normalized S1 r m"
proof -
  from assms obtain m where obj: "ctx = JObj m"
    by (cases ctx) (simp_all add: initializeContext_def split: if_splits)
  obtain S' res where ic: "initializeConfig E S (contextArg m) = (S', res)"
    by (cases "initializeConfig E S (contextArg m)") auto
  from assms[unfolded obj initializeContext_JObj] ic
  have "hasOwn m ''message'' \<and> S' = S1 \<and> (\<exists>r. res = Inr r \<and> ctx1 = normalized S1 r m)
        \<and> \<not> nullish (getp m ''message'')
        \<and> \<not> (hasOwn m ''metadata'' \<and> nullish (getp m ''metadata''))"
    by (cases res) (auto split: if_splits)
  with that obj ic show ?thesis by blast
qed

lemma flushContext_batched:
  assumes "isBatched S ic"
  shows "fst (flushContext E S ic) = drain S"
  using assms by (simp add: flushContext_def Let_def split: sum.split)

lemma flush_batched_queues:
  assumes "config S = Some ic" and "isBatched S ic"
  shows "sameQueues (drain S) (fst (flush E S))"
proof -
  obtain S1 r where fc: "flushContext E S ic = (S1, r)"
    by (cases "flushContext E S ic") auto
  have S1: "S1 = drain S" using flushContext_batched[OF assms(2), of E] fc by simp
  show ?thesis
    by (cases r) (simp_all add: flush_def assms(1) fc S1 sameQueues_refl pipeline_sameQueues)
qed




lemma truthy_not_nullish: "truthy v \<Longrightarrow> \<not> nullish v"
  by (cases v) (simp_all add: nullish_def)

lemma chain_append:
  "chain before os c = Some (os', e, c') \<Longrightarrow> nullish e
     \<Longrightarrow> chain (before @ rest) os c = chain rest os' c'"
proof (induction before arbitrary: os c)
  case Nil
  then show ?case by simp
next
  case (Cons s ss)
  then show ?case
    by (auto split: option.splits prod.splits if_splits)
qed

lemma chain_abort:
  assumes "chain before os c = Some (os', JNull, c')"
    and "step os' c' = Some (os'', err, passed)" and "\<not> nullish err"
  shows "chain (before @ step # rest) os c = Some (os'', err, lastObserved c' passed)"
  using chain_append[OF assms(1), of "step # rest"] assms(2,3)
  by (simp add: nullish_def)

lemma flushContext_keeps:
  "middlewares (fst (flushContext E S ic)) = middlewares S
   \<and> trace (fst (flushContext E S ic)) = trace S"
  by (simp add: flushContext_def Let_def drain_def popContext_def popSize_def split: sum.split)

lemma postCount_snoc_sink: "postCount (xs @ [ErrorSink e c]) = postCount xs"
  by (simp add: postCount_append postCount_simps)

lemma callbacks_snoc_sink: "callbacks (xs @ [ErrorSink e c]) = callbacks xs"
  by (induction xs rule: callbacks.induct) simp_all


lemmas resolve_defs =
  initializeConfig_def checkConfig_def applyUrl_def resolveFields_def orField_def
  resolveNumber_def resolveAutoFlush_def upsertTimer_def resolvePort_def checkPort_def
  js_or_def Let_def num_lt_def num_le_def levels_INFO_def defaultConfig_def

lemma tokenConfig_sel:
  "truthy (getp tokenConfig ''autoFlush'')"
  "toNumber (getp tokenConfig ''maxBatchSize'') = Some 0"
  by (simp_all add: tokenConfig_def defaultConfig_def)




section \<open>Settings resolution in closed form\<close>

lemma resolveNumber_eq:
  "resolveNumber k label c ret =
     (case parseInt (pick c ret k) of
        None \<Rightarrow> Inl (Error (label @ '' must be a number, found: NaN''))
      | Some n \<Rightarrow>
          if n < 0 then Inl (Error (label @ '' must be a positive number, found: '' @ number_toString n))
          else Inr (ret(k \<mapsto> JNum n)))"
  by (simp add: resolveNumber_def orField_def pick_def)

lemma resolveAutoFlush_eq:
  "resolveAutoFlush ic c ret = ret(''autoFlush'' \<mapsto> JBool (autoFlushOf ic c))"
  by (simp add: resolveAutoFlush_def autoFlushOf_def Let_def defaultConfig_def split: option.splits)

lemma pick_upd: "k \<noteq> k' \<Longrightarrow> pick c (ret(k' \<mapsto> v)) k = pick c ret k"
  by (simp add: pick_def)

lemma resolveNumber_cases:
  "resolveNumber k label c ret =
     (case numberError label (parseInt (pick c ret k)) of
        Some e \<Rightarrow> Inl e
      | None \<Rightarrow> Inr (ret(k \<mapsto> JNum (the (parseInt (pick c ret k))))))"
  by (simp add: resolveNumber_eq numberError_def split: option.split)

lemma resolveFields_eq:
  "resolveFields ic c ret =
     (case numberError ''Max retries'' (parseInt (pick c ret ''maxRetries'')) of
        Some e \<Rightarrow> Inl e
      | None \<Rightarrow>
         (case numberError ''Max batch size'' (parseInt (pick c ret ''maxBatchSize'')) of
            Some e \<Rightarrow> Inl e
          | None \<Rightarrow>
             (case numberError ''Batch interval'' (parseInt (pick c ret ''batchInterval'')) of
                Some e \<Rightarrow> Inl e
              | None \<Rightarrow>
                 Inr (fieldsOf ic c ret (the (parseInt (pick c ret ''maxRetries'')))
                        (the (parseInt (pick c ret ''maxBatchSize'')))
                        (the (parseInt (pick c ret ''batchInterval'')))))))"
  unfolding resolveFields_def Let_def
  by (simp add: resolveNumber_cases resolveAutoFlush_eq orField_def pick_upd fieldsOf_def
                pick_def[symmetric] split: option.split)


lemma enableTimer_positive: "0 < n \<Longrightarrow> snd (enableTimer S (JNum n)) = Inr ()"
  by (simp add: enableTimer_def Let_def)

lemma upsertTimer_ok: "getp r ''batchInterval'' = JNum n \<Longrightarrow> snd (upsertTimer S r) = Inr ()"
  by (simp add: upsertTimer_def Let_def num_lt_def enableTimer_positive)

lemma checkConfig_Inr: "checkConfig ret cfg = Inr c \<Longrightarrow> cfg = JObj c"
  by (cases cfg) (simp_all add: checkConfig_def split: if_splits)

lemma initializeConfig_Arg_Inr:
  "initializeConfig E S (Arg (JObj c0)) = (S', Inr r) \<longleftrightarrow>
     (\<exists>c rf. checkConfig (instanceConfig S) (JObj c0) = Inr c0
        \<and> applyUrl E c0 = Inr c
        \<and> resolveFields (config S) c (instanceConfig S) = Inr rf
        \<and> resolvePort c rf = Inr r
        \<and> S' = fst (upsertTimer S rf))"
proof -
  have ok: "resolveFields (config S) c (instanceConfig S) = Inr rf \<Longrightarrow>
            \<exists>S1. upsertTimer S rf = (S1, Inr ())" for c rf
  proof -
    assume "resolveFields (config S) c (instanceConfig S) = Inr rf"
    then obtain n where "getp rf ''batchInterval'' = JNum n"
      by (auto simp: resolveFields_eq fieldsOf_def split: option.splits)
    from upsertTimer_ok[OF this, of S] show ?thesis
      by (cases "upsertTimer S rf") simp
  qed
  show ?thesis
  proof (cases "checkConfig (instanceConfig S) (JObj c0)")
    case (Inl e)
    then show ?thesis
      by (simp add: initializeConfig_def instanceConfig_def)
  next
    case (Inr c0')
    then have c0': "c0' = c0" using checkConfig_Inr by fastforce
    show ?thesis
    proof (cases "applyUrl E c0")
      case (Inl e)
      with Inr show ?thesis
        by (simp add: initializeConfig_def instanceConfig_def c0')
    next
      case au: (Inr c)
      show ?thesis
      proof (cases "resolveFields (config S) c (instanceConfig S)")
        case (Inl e)
        with Inr au show ?thesis
          by (simp add: initializeConfig_def instanceConfig_def[symmetric] c0')
      next
        case rf: (Inr rf)
        from ok[OF rf] obtain S1 where ut: "upsertTimer S rf = (S1, Inr ())" by blast
        show ?thesis
          using Inr au rf
          by (cases "resolvePort c rf")
             (auto simp: initializeConfig_def instanceConfig_def[symmetric] c0' ut)
      qed
    qed
  qed
qed


lemma config_same: "config S = Some inst \<Longrightarrow> S\<lparr>config := Some inst\<rparr> = S"
  by (cases S) simp

lemma applyUrl_none: "\<not> truthy (getp c ''url'') \<Longrightarrow> applyUrl E c = Inr c"
  by (simp add: applyUrl_def)

lemma initializeConfig_This:
  assumes "config S = Some inst" and "\<not> truthy (getp inst ''url'')"
  shows "initializeConfig E S ThisConfig = initializeConfig E S (Arg (JObj inst))"
proof (cases "checkConfig inst (JObj inst)")
  case (Inl e)
  then show ?thesis by (simp add: initializeConfig_def assms(1))
next
  case (Inr c0)
  then have "c0 = inst" using checkConfig_Inr by fastforce
  with Inr show ?thesis
    by (simp add: initializeConfig_def assms(1) applyUrl_none[OF assms(2)]
                  config_same[OF assms(1)])
qed

lemma resolvePort_Inr:
  "resolvePort c rf = Inr r \<Longrightarrow>
     r = rf(''port'' \<mapsto> getp r ''port'')
     \<and> (hasOwn c ''port'' \<longrightarrow> Some (getp r ''port'') = map_option JNum (parseInt (getp c ''port'')))
     \<and> (\<not> hasOwn c ''port'' \<longrightarrow> getp r ''port'' = js_or (getp rf ''port'') (JNum 8088))
     \<and> \<not> num_lt (toNumber (getp r ''port'')) (Some 1000)
     \<and> \<not> num_lt (Some 65535) (toNumber (getp r ''port''))"
  by (auto simp: resolvePort_def checkPort_def defaultConfig_def split: if_splits option.splits)

lemma resolveFields_Inr:
  "resolveFields ic c ret = Inr rf \<Longrightarrow>
     \<exists>n1 n2 n3. parseInt (pick c ret ''maxRetries'') = Some n1 \<and> 0 \<le> n1
        \<and> parseInt (pick c ret ''maxBatchSize'') = Some n2 \<and> 0 \<le> n2
        \<and> parseInt (pick c ret ''batchInterval'') = Some n3 \<and> 0 \<le> n3
        \<and> rf = fieldsOf ic c ret n1 n2 n3"
  by (auto simp: resolveFields_eq numberError_def split: option.splits if_splits)

lemma initializeConfig_Arg_obj:
  assumes "initializeConfig E S (Arg v) = (S1, Inr r)"
  obtains c where "v = JObj c"
proof -
  from assms have "\<exists>c. checkConfig (instanceConfig S) v = Inr c"
    by (cases "checkConfig (instanceConfig S) v")
       (simp_all add: initializeConfig_def instanceConfig_def)
  then show ?thesis using that checkConfig_Inr by blast
qed

text \<open>Whatever the argument, a successful resolution went through the numeric settings.\<close>

lemma initializeConfig_Inr_parts:
  assumes "initializeConfig E S a = (S', Inr r)"
  shows "\<exists>tc c ret rf. resolveFields tc c ret = Inr rf \<and> resolvePort c rf = Inr r"
proof (cases a)
  case (Arg v)
  from initializeConfig_Arg_obj[OF assms[unfolded Arg]] obtain c0 where "v = JObj c0" .
  with assms Arg show ?thesis
    by (auto simp: initializeConfig_Arg_Inr)
next
  case ThisConfig
  let ?ret = "instanceConfig S"
  let ?cfg = "case config S of None \<Rightarrow> JUndefined | Some ic \<Rightarrow> JObj ic"
  show ?thesis
  proof (cases "checkConfig ?ret ?cfg")
    case (Inl e)
    with assms show ?thesis
      by (simp add: initializeConfig_def instanceConfig_def ThisConfig)
  next
    case c0: (Inr c0)
    show ?thesis
    proof (cases "applyUrl E c0")
      case (Inl e)
      with assms c0 show ?thesis
        by (simp add: initializeConfig_def instanceConfig_def ThisConfig)
    next
      case au: (Inr c)
      show ?thesis
      proof (cases "resolveFields (Some c) c ?ret")
        case (Inl e)
        with assms c0 au show ?thesis
          by (simp add: initializeConfig_def instanceConfig_def ThisConfig)
      next
        case rf: (Inr rf)
        obtain S1 u where ut: "upsertTimer (S\<lparr>config := Some c\<rparr>) rf = (S1, u)"
          by (cases "upsertTimer (S\<lparr>config := Some c\<rparr>) rf") auto
        have "resolvePort c rf = Inr r"
          using assms c0 au rf ut
          by (cases u; cases "resolvePort c rf")
             (simp_all add: initializeConfig_def instanceConfig_def ThisConfig)
        with rf show ?thesis by blast
      qed
    qed
  qed
qed

lemma initializeConfig_Inr_retries:
  assumes "initializeConfig E S a = (S', Inr r)"
  shows "\<exists>n. 0 \<le> n \<and> getp r ''maxRetries'' = JNum n"
proof -
  from initializeConfig_Inr_parts[OF assms] obtain tc c ret rf
    where rf: "resolveFields tc c ret = Inr rf" and rp: "resolvePort c rf = Inr r"
    by blast
  from resolveFields_Inr[OF rf] obtain n1 n2 n3
    where n: "0 \<le> n1" and f: "rf = fieldsOf tc c ret n1 n2 n3"
    by blast
  from resolvePort_Inr[OF rp] have r: "r = rf(''port'' \<mapsto> getp r ''port'')" by blast
  have "getp r ''maxRetries'' = JNum n1"
    by (subst r) (simp add: f fieldsOf_def)
  with n show ?thesis by blast
qed






lemma initializeConfig_Inr_timer:
  assumes "initializeConfig E S a = (S', Inr r)"
  shows "\<exists>S0 rf. S' = fst (upsertTimer S0 rf) \<and> timerID S0 = timerID S
           \<and> timerDuration S0 = timerDuration S \<and> intervals S0 = intervals S
           \<and> getp rf ''autoFlush'' = getp r ''autoFlush''
           \<and> getp rf ''batchInterval'' = getp r ''batchInterval''"
proof -
  let ?S0 = "\<lambda>c. (case a of ThisConfig \<Rightarrow> S\<lparr>config := Some c\<rparr> | Arg v \<Rightarrow> S)"
  have s0: "timerID (?S0 c) = timerID S \<and> timerDuration (?S0 c) = timerDuration S
            \<and> intervals (?S0 c) = intervals S" for c
    by (cases a) simp_all
  from assms obtain c rf S1 u where ut: "upsertTimer (?S0 c) rf = (S1, u)"
    and rp: "resolvePort c rf = Inr r" and S': "S' = S1"
    by (auto simp: initializeConfig_def Let_def split: sum.splits prod.splits)
  from resolvePort_Inr[OF rp] have r: "r = rf(''port'' \<mapsto> getp r ''port'')" by blast
  have "k \<noteq> ''port'' \<Longrightarrow> getp rf k = getp r k" for k
    using arg_cong[OF r, of "\<lambda>m. getp m k"] by simp
  then have g: "getp rf ''autoFlush'' = getp r ''autoFlush''"
               "getp rf ''batchInterval'' = getp r ''batchInterval''"
    by simp_all
  show ?thesis
    using s0[of c] ut S' g by (intro exI[of _ "?S0 c"] exI[of _ rf]) simp
qed


lemma zeroedLogger_sel:
  "config zeroedLogger = Some (timerSettings(''batchInterval'' \<mapsto> JNum 0))"
  "timerID zeroedLogger = Some 0" "timerDuration zeroedLogger = 1000"
  "intervals zeroedLogger = [(0, 1000)]"
  by (simp_all add: zeroedLogger_def timerLogger_def)


lemma checkConfig_missing:
  "\<not> hasOwn ret ''token'' \<Longrightarrow> \<not> hasOwn c ''token'' \<Longrightarrow>
   checkConfig ret (JObj c) = Inl (Error ''Config object must have a token.'')"
  by (simp add: checkConfig_def)

lemma checkConfig_nonstring:
  "hasOwn ret ''token'' \<or> hasOwn c ''token'' \<Longrightarrow>
   typeof (getp ret ''token'') \<noteq> ''string'' \<Longrightarrow> typeof (getp c ''token'') \<noteq> ''string'' \<Longrightarrow>
   checkConfig ret (JObj c) = Inl (Error ''Config token must be a string.'')"
  by (auto simp: checkConfig_def)

lemma initializeConfig_check_fails:
  "checkConfig (instanceConfig S) cfg = Inl e \<Longrightarrow> initializeConfig E S (Arg cfg) = (S, Inl e)"
  by (simp add: initializeConfig_def instanceConfig_def)


lemma upsertTimer_cases:
  assumes "getp rf ''batchInterval'' = JNum n"
  shows "upsertTimer S rf =
     (if truthy (getp rf ''autoFlush'') \<and> 0 < n \<and> (timerID S = None \<or> timerDuration S \<noteq> n)
      then enableTimer S (JNum n)
      else if timerID S \<noteq> None \<and> (timerDuration S < 0 \<or> \<not> truthy (getp rf ''autoFlush''))
        then (disableTimer S, Inr ())
      else (S, Inr ()))"
  using assms by (cases "timerID S") (simp_all add: upsertTimer_def Let_def num_lt_def)

lemma enableTimer_sel:
  assumes "0 < n"
  shows "timerID (fst (enableTimer S (JNum n))) = Some (timerCount S)"
    and "timerDuration (fst (enableTimer S (JNum n))) = n"
    and "config (fst (enableTimer S (JNum n))) =
           (case config S of
              None \<Rightarrow> None
            | Some c \<Rightarrow> if hasOwn c ''batchInterval'' then Some (c(''batchInterval'' \<mapsto> JNum n))
                        else Some c)"
  using assms
  by (simp_all add: enableTimer_def Let_def disableTimer_def split: option.split)

lemma disableTimer_sel:
  "timerID (disableTimer S) = None" "config (disableTimer S) = config S"
  "timerID S \<noteq> None \<Longrightarrow> timerDuration (disableTimer S) = 0"
  by (cases "timerID S"; simp add: disableTimer_def)+



section \<open>Settings: resolution order, the token and the timer\<close>



lemmas parse_defs =
  parseInt_str_def parse_digits_def digits_val_def is_digit_def is_space_def
  nearest_number_small

lemmas eval_config =
  initializeConfig_Arg_Inr checkConfig_def applyUrl_none resolveFields_eq numberError_def
  pick_def fieldsOf_def autoFlushOf_def resolvePort_def checkPort_def instanceConfig_def
  js_or_def num_lt_def defaultConfig_def upsertTimer_def enableTimer_def disableTimer_def Let_def

lemma retryingLogger_config:
  "instanceConfig retryingLogger
     = tokenConfig(''maxRetries'' \<mapsto> JNum 5, ''host'' \<mapsto> JStr ''splunk.local'')"
  by (simp add: retryingLogger_def instanceConfig_def)



text \<open>
  A call-level numeric setting that is \<open>0\<close> is not taken either: \<^verbatim>\<open>0 || 5\<close> is \<open>5\<close>.
  For \<^verbatim>\<open>autoFlush\<close> the code asks \<^verbatim>\<open>hasOwnProperty\<close> (lines 258-267) and takes a
  call-level \<^verbatim>\<open>false\<close>; for the numeric settings line 249 does not.
\<close>

theorem zero_call_level_value_skipped:
  "hasOwn [''maxRetries'' \<mapsto> JNum 0] ''maxRetries''
   \<and> snd (initializeConfig plainEnv retryingLogger (Arg (JObj [''maxRetries'' \<mapsto> JNum 0])))
       = Inr (projr (snd (initializeConfig plainEnv retryingLogger
                            (Arg (JObj [''maxRetries'' \<mapsto> JNum 0])))))
   \<and> getp (projr (snd (initializeConfig plainEnv retryingLogger
                         (Arg (JObj [''maxRetries'' \<mapsto> JNum 0]))))) ''maxRetries'' = JNum 5
   \<and> getp (instanceConfig retryingLogger) ''maxRetries'' = JNum 5"
proof -
  have "\<exists>S r. initializeConfig plainEnv retryingLogger (Arg (JObj [''maxRetries'' \<mapsto> JNum 0]))
                 = (S, Inr r) \<and> getp r ''maxRetries'' = JNum 5"
    by (simp add: eval_config retryingLogger_def noneQueued_def twoQueued_def tokenConfig_def)
  then obtain S r
    where "initializeConfig plainEnv retryingLogger (Arg (JObj [''maxRetries'' \<mapsto> JNum 0]))
             = (S, Inr r)" and "getp r ''maxRetries'' = JNum 5"
    by blast
  then show ?thesis
    by (simp add: retryingLogger_config)
qed


text \<open>
  C3. The claim holds for \<^verbatim>\<open>autoFlush\<close> (see \<open>autoFlush_off_stops_timer\<close> below) and
  fails for the interval. The logger \<^verbatim>\<open>new SplunkLogger({token: "t", batchInterval:
  1000})\<close> has its timer running; after \<^verbatim>\<open>logger.config.batchInterval = 0\<close>, resolving
  the settings of \<^verbatim>\<open>this.config\<close> (as \<^verbatim>\<open>flush\<close> does) gives \<^verbatim>\<open>autoFlush\<close> true and the
  interval \<open>0\<close>, and the timer still runs with its period of 1000 ms: line 297 tests the
  stored \<^verbatim>\<open>_timerDuration < 0\<close>, which never holds, not the resolved interval.
\<close>

theorem timer_survives_zero_interval:
  "SplunkLogger plainEnv (JObj [''token'' \<mapsto> JStr ''t'', ''batchInterval'' \<mapsto> JNum 1000])
     = (timerLogger, Inr ())
   \<and> timerID zeroedLogger = Some 0
   \<and> snd (initializeConfig plainEnv zeroedLogger ThisConfig)
       = Inr (projr (snd (initializeConfig plainEnv zeroedLogger ThisConfig)))
   \<and> getp (projr (snd (initializeConfig plainEnv zeroedLogger ThisConfig))) ''autoFlush''
       = JBool True
   \<and> getp (projr (snd (initializeConfig plainEnv zeroedLogger ThisConfig))) ''batchInterval''
       = JNum 0
   \<and> timerID (fst (initializeConfig plainEnv zeroedLogger ThisConfig)) = Some 0
   \<and> timerDuration (fst (initializeConfig plainEnv zeroedLogger ThisConfig)) = 1000
   \<and> intervals (fst (initializeConfig plainEnv zeroedLogger ThisConfig)) = [(0, 1000)]"
proof -
  have c: "\<exists>r. initializeConfig plainEnv emptyState
                  (Arg (JObj [''token'' \<mapsto> JStr ''t'', ''batchInterval'' \<mapsto> JNum 1000]))
                = (emptyState\<lparr>timerDuration := 1000, timerID := Some 0,
                               intervals := [(0, 1000)], timerCount := Suc 0\<rparr>, Inr r)
                \<and> r = timerSettings"
    by (simp add: eval_config emptyState_def timerSettings_def levels_INFO_def)
  have 1: "SplunkLogger plainEnv
             (JObj [''token'' \<mapsto> JStr ''t'', ''batchInterval'' \<mapsto> JNum 1000])
           = (timerLogger, Inr ())"
    using c by (auto simp: SplunkLogger_def timerLogger_def emptyState_def)
  have u: "\<not> truthy (getp (timerSettings(''batchInterval'' \<mapsto> JNum 0)) ''url'')"
    by (simp add: timerSettings_def)
  have "\<exists>S r. initializeConfig plainEnv zeroedLogger
                  (Arg (JObj (timerSettings(''batchInterval'' \<mapsto> JNum 0)))) = (S, Inr r)
              \<and> getp r ''autoFlush'' = JBool True \<and> getp r ''batchInterval'' = JNum 0
              \<and> timerID S = Some 0 \<and> timerDuration S = 1000 \<and> intervals S = [(0, 1000)]"
    by (simp add: eval_config zeroedLogger_sel timerSettings_def)
  then obtain S r where "initializeConfig plainEnv zeroedLogger ThisConfig = (S, Inr r)"
      and "getp r ''autoFlush'' = JBool True" and "getp r ''batchInterval'' = JNum 0"
      and "timerID S = Some 0" and "timerDuration S = 1000" and "intervals S = [(0, 1000)]"
    unfolding initializeConfig_This[OF zeroedLogger_sel(1) u] by blast
  then show ?thesis
    using 1 by (simp add: zeroedLogger_sel)
qed


text \<open>
  Whenever settings are resolved while a timer runs and the resolved \<^verbatim>\<open>autoFlush\<close> is
  false, the timer is stopped: its handle is cleared, its duration reset and its interval
  cancelled.
\<close>

theorem autoFlush_off_stops_timer:
  assumes "initializeConfig E S a = (S', Inr r)" and "timerID S = Some h"
    and "\<not> truthy (getp r ''autoFlush'')"
  shows "timerID S' = None \<and> timerDuration S' = 0 \<and> h \<notin> fst ` set (intervals S')"
proof -
  from initializeConfig_Inr_timer[OF assms(1)] obtain S0 rf
    where S': "S' = fst (upsertTimer S0 rf)" and t: "timerID S0 = Some h"
      and af: "\<not> truthy (getp rf ''autoFlush'')"
    using assms(2,3) by auto
  have "upsertTimer S0 rf = (disableTimer S0, Inr ())"
    using t af by (simp add: upsertTimer_def Let_def)
  then show ?thesis
    using t by (auto simp: S' disableTimer_def)
qed

theorem autoFlush_off_stops_timer_witness:
  "timerID (fst (initializeConfig plainEnv timerLogger
                   (Arg (JObj [''autoFlush'' \<mapsto> JBool False])))) = None
   \<and> timerDuration (fst (initializeConfig plainEnv timerLogger
                   (Arg (JObj [''autoFlush'' \<mapsto> JBool False])))) = 0
   \<and> 0 \<notin> fst ` set (intervals (fst (initializeConfig plainEnv timerLogger
                   (Arg (JObj [''autoFlush'' \<mapsto> JBool False])))))"
proof -
  have "\<exists>S r. initializeConfig plainEnv timerLogger (Arg (JObj [''autoFlush'' \<mapsto> JBool False]))
                 = (S, Inr r) \<and> \<not> truthy (getp r ''autoFlush'')"
    by (simp add: eval_config timerLogger_def timerSettings_def)
  then obtain S r
    where R: "initializeConfig plainEnv timerLogger (Arg (JObj [''autoFlush'' \<mapsto> JBool False]))
                = (S, Inr r)" and af: "\<not> truthy (getp r ''autoFlush'')"
    by blast
  have t: "timerID timerLogger = Some 0" by (simp add: timerLogger_def)
  from autoFlush_off_stops_timer[OF R t af] show ?thesis by (simp add: R)
qed


text \<open>
  C5. The claim holds when the token is missing in both configs and when neither token
  is a string (see \<open>token_checked_before_queueing\<close> below), and fails for an effective
  token that is not a string. A logger with the token \<open>"t"\<close> that gets the call-level
  config \<^verbatim>\<open>{token: 123}\<close> resolves its settings with the token \<open>123\<close>; and
  \<^verbatim>\<open>new SplunkLogger({token: ""})\<close> is constructed with the token \<open>undefined\<close>. Line 212
  asks that one of the two tokens be a string, line 242 takes the first that is truthy.
\<close>

theorem nonstring_token_accepted:
  "typeof (JNum 123) \<noteq> ''string''
   \<and> snd (initializeConfig plainEnv noneQueued (Arg (JObj [''token'' \<mapsto> JNum 123])))
       = Inr (projr (snd (initializeConfig plainEnv noneQueued
                            (Arg (JObj [''token'' \<mapsto> JNum 123])))))
   \<and> getp (projr (snd (initializeConfig plainEnv noneQueued
                         (Arg (JObj [''token'' \<mapsto> JNum 123]))))) ''token'' = JNum 123
   \<and> snd (SplunkLogger plainEnv (JObj [''token'' \<mapsto> JStr ''''])) = Inr ()
   \<and> getp (instanceConfig (fst (SplunkLogger plainEnv (JObj [''token'' \<mapsto> JStr ''''])))) ''token''
       = JUndefined"
proof -
  have "\<exists>S r. initializeConfig plainEnv noneQueued (Arg (JObj [''token'' \<mapsto> JNum 123]))
                 = (S, Inr r) \<and> getp r ''token'' = JNum 123"
    by (simp add: eval_config noneQueued_def twoQueued_def tokenConfig_def)
  then obtain S r
    where 1: "initializeConfig plainEnv noneQueued (Arg (JObj [''token'' \<mapsto> JNum 123]))
                = (S, Inr r)" "getp r ''token'' = JNum 123"
    by blast
  have "\<exists>S r. initializeConfig plainEnv emptyState (Arg (JObj [''token'' \<mapsto> JStr '''']))
                 = (S, Inr r) \<and> getp r ''token'' = JUndefined"
    by (simp add: eval_config emptyState_def)
  then obtain S2 r2
    where 2: "initializeConfig plainEnv emptyState (Arg (JObj [''token'' \<mapsto> JStr '''']))
                = (S2, Inr r2)" "getp r2 ''token'' = JUndefined"
    by blast
  show ?thesis
    using 1 2 by (simp add: SplunkLogger_def instanceConfig_def)
qed


text \<open>
  When the token is missing in the call-level config and in the instance config, or
  neither of the two tokens is a string, settings resolution fails with an error that
  names the token, and \<^verbatim>\<open>send\<close> throws it before anything is queued.
\<close>

theorem token_checked_before_queueing:
  assumes "hasOwn m ''message''" and "getp m ''config'' = JObj c"
    and "(\<not> hasOwn (instanceConfig S) ''token'' \<and> \<not> hasOwn c ''token'')
         \<or> (typeof (getp (instanceConfig S) ''token'') \<noteq> ''string''
             \<and> typeof (getp c ''token'') \<noteq> ''string'')"
  shows "initializeConfig E S (Arg (JObj c))
           = (S, Inl (Error (if \<not> hasOwn (instanceConfig S) ''token'' \<and> \<not> hasOwn c ''token''
                             then ''Config object must have a token.''
                             else ''Config token must be a string.'')))
         \<and> send E S (JObj m)
           = (S, Inl (Error (if \<not> hasOwn (instanceConfig S) ''token'' \<and> \<not> hasOwn c ''token''
                             then ''Config object must have a token.''
                             else ''Config token must be a string.'')))
         \<and> queueOf (fst (send E S (JObj m))) = queueOf S
         \<and> sizesOf (fst (send E S (JObj m))) = sizesOf S"
proof -
  let ?e = "Error (if \<not> hasOwn (instanceConfig S) ''token'' \<and> \<not> hasOwn c ''token''
                   then ''Config object must have a token.''
                   else ''Config token must be a string.'')"
  have ck: "checkConfig (instanceConfig S) (JObj c) = Inl ?e"
    using assms(3) checkConfig_missing[of "instanceConfig S" c]
      checkConfig_nonstring[of "instanceConfig S" c]
    by auto
  have ic: "initializeConfig E S (Arg (JObj c)) = (S, Inl ?e)"
    using ck by (rule initializeConfig_check_fails)
  have sd: "send E S (JObj m) = (S, Inl ?e)"
    using assms(1,2) ic by (simp add: send_def initializeContext_def)
  show ?thesis
    using ic sd by simp
qed

theorem token_checked_before_queueing_witness:
  "send plainEnv (twoQueued\<lparr>config := Some (tokenConfig(''token'' \<mapsto> JNull))\<rparr>)
        (JObj [''message'' \<mapsto> JStr ''third'', ''config'' \<mapsto> JObj [''token'' \<mapsto> JNum 7]])
     = (twoQueued\<lparr>config := Some (tokenConfig(''token'' \<mapsto> JNull))\<rparr>,
        Inl (Error ''Config token must be a string.''))
   \<and> queueOf (fst (send plainEnv (twoQueued\<lparr>config := Some (tokenConfig(''token'' \<mapsto> JNull))\<rparr>)
        (JObj [''message'' \<mapsto> JStr ''third'', ''config'' \<mapsto> JObj [''token'' \<mapsto> JNum 7]])))
     = [queuedA, queuedB]"
proof -
  let ?S = "twoQueued\<lparr>config := Some (tokenConfig(''token'' \<mapsto> JNull))\<rparr>"
  let ?m = "[''message'' \<mapsto> JStr ''third'', ''config'' \<mapsto> JObj [''token'' \<mapsto> JNum 7]]"
  have i: "instanceConfig ?S = tokenConfig(''token'' \<mapsto> JNull)"
    by (simp add: instanceConfig_def)
  have h: "(\<not> hasOwn (instanceConfig ?S) ''token'' \<and> \<not> hasOwn [''token'' \<mapsto> JNum 7] ''token'')
         \<or> (typeof (getp (instanceConfig ?S) ''token'') \<noteq> ''string''
             \<and> typeof (getp [''token'' \<mapsto> JNum 7] ''token'') \<noteq> ''string'')"
    by (simp add: i)
  have q: "queueOf ?S = [queuedA, queuedB]"
    by (simp add: twoQueued_def queueOf_def deref_def)
  have m: "hasOwn ?m ''message''" "getp ?m ''config'' = JObj [''token'' \<mapsto> JNum 7]"
    by simp_all
  note th = token_checked_before_queueing[OF m h, of plainEnv]
  have 1: "send plainEnv ?S (JObj ?m) = (?S, Inl (Error ''Config token must be a string.''))"
    using th[THEN conjunct2, THEN conjunct1] by (simp add: i)
  have 2: "queueOf (fst (send plainEnv ?S (JObj ?m))) = [queuedA, queuedB]"
    using th[THEN conjunct2, THEN conjunct2, THEN conjunct1] by (simp add: q)
  show ?thesis by (rule conjI[OF 1 2])
qed


section \<open>The normalizer applied twice\<close>

lemma upsertTimer_again:
  assumes "getp rf ''batchInterval'' = JNum n"
    and "getp rf2 ''batchInterval'' = getp rf ''batchInterval''"
    and "getp rf2 ''autoFlush'' = getp rf ''autoFlush''"
  shows "upsertTimer (fst (upsertTimer S rf)) rf2 = (fst (upsertTimer S rf), Inr ())"
proof -
  have b2: "getp rf2 ''batchInterval'' = JNum n" using assms(1,2) by simp
  show ?thesis
    unfolding upsertTimer_cases[OF b2] upsertTimer_cases[OF assms(1)] assms(3)
    by (cases "timerID S") (auto simp: enableTimer_sel disableTimer_sel)
qed

lemma upsertTimer_config:
  assumes "getp rf ''batchInterval'' = JNum n" and "k \<noteq> ''batchInterval''"
  shows "instanceConfig (fst (upsertTimer S rf)) k = instanceConfig S k"
  unfolding upsertTimer_cases[OF assms(1)] instanceConfig_def
  using assms(2) by (cases "config S") (auto simp: enableTimer_sel disableTimer_sel)

lemma upsertTimer_interval:
  assumes "getp rf ''batchInterval'' = JNum n"
  shows "getp (instanceConfig (fst (upsertTimer S rf))) ''batchInterval''
           = getp (instanceConfig S) ''batchInterval''
         \<or> (0 < n \<and> getp (instanceConfig (fst (upsertTimer S rf))) ''batchInterval'' = JNum n)"
  unfolding upsertTimer_cases[OF assms(1)] instanceConfig_def
  by (cases "config S") (auto simp: enableTimer_sel disableTimer_sel)

lemma default_strings:
  "truthy (getp defaultConfig ''name'')" "truthy (getp defaultConfig ''host'')"
  "truthy (getp defaultConfig ''path'')" "truthy (getp defaultConfig ''protocol'')"
  "truthy (getp defaultConfig ''level'')"
  by (simp_all add: defaultConfig_def levels_INFO_def)

lemma default_string: "k \<in> set stringSettings \<Longrightarrow> truthy (getp defaultConfig k)"
  by (auto simp: stringSettings_def default_strings)

lemma pick_truthy: "k \<in> set stringSettings \<Longrightarrow> truthy (pick c ret k)"
  using default_string[of k] by (simp add: pick_def js_or_def)

lemma js_or_truthy: "truthy a \<Longrightarrow> js_or a b = a"
  by (simp add: js_or_def)

lemma js_or_same: "js_or (js_or a b) b = js_or a b"
  by (simp add: js_or_def)

lemma fieldsOf_other:
  assumes "\<And>k. k \<noteq> ''batchInterval'' \<Longrightarrow> ret' k = ret k"
  shows "(ret'(''token'' \<mapsto> t, ''name'' \<mapsto> a1, ''host'' \<mapsto> a2, ''path'' \<mapsto> a3,
               ''protocol'' \<mapsto> a4, ''level'' \<mapsto> a5, ''maxRetries'' \<mapsto> b1,
               ''autoFlush'' \<mapsto> b2, ''maxBatchSize'' \<mapsto> b3, ''batchInterval'' \<mapsto> b4))
         = (ret(''token'' \<mapsto> t, ''name'' \<mapsto> a1, ''host'' \<mapsto> a2, ''path'' \<mapsto> a3,
               ''protocol'' \<mapsto> a4, ''level'' \<mapsto> a5, ''maxRetries'' \<mapsto> b1,
               ''autoFlush'' \<mapsto> b2, ''maxBatchSize'' \<mapsto> b3, ''batchInterval'' \<mapsto> b4))"
proof (rule ext)
  fix k
  show "(ret'(''token'' \<mapsto> t, ''name'' \<mapsto> a1, ''host'' \<mapsto> a2, ''path'' \<mapsto> a3,
               ''protocol'' \<mapsto> a4, ''level'' \<mapsto> a5, ''maxRetries'' \<mapsto> b1,
               ''autoFlush'' \<mapsto> b2, ''maxBatchSize'' \<mapsto> b3, ''batchInterval'' \<mapsto> b4)) k
         = (ret(''token'' \<mapsto> t, ''name'' \<mapsto> a1, ''host'' \<mapsto> a2, ''path'' \<mapsto> a3,
               ''protocol'' \<mapsto> a4, ''level'' \<mapsto> a5, ''maxRetries'' \<mapsto> b1,
               ''autoFlush'' \<mapsto> b2, ''maxBatchSize'' \<mapsto> b3, ''batchInterval'' \<mapsto> b4)) k"
    using assms[of k] by (cases "k = ''batchInterval''") simp_all
qed

text \<open>The fields of a resolved snapshot, read back as a call-level config.\<close>

lemma fieldsOf_again:
  assumes same: "\<And>k. k \<noteq> ''batchInterval'' \<Longrightarrow> ret' k = ret k"
    and rf: "rf = fieldsOf ic c ret n1 n2 n3"
    and r: "r = rf(''port'' \<mapsto> v)"
  shows "fieldsOf ic' r ret' n1 n2 n3 = rf"
proof -
  have g: "getp ret' k = getp ret k" if "k \<noteq> ''batchInterval''" for k
    using same[OF that] by (simp add: getp_def)
  have t: "js_or (getp r ''token'') (getp ret' ''token'') = getp rf ''token''"
    by (simp add: r rf fieldsOf_def g js_or_same)
  have s: "pick r ret' k = getp rf k" if "k \<in> set stringSettings" for k
  proof -
    have "getp r k = pick c ret k"
      using that by (auto simp: r rf fieldsOf_def stringSettings_def)
    moreover have "getp rf k = pick c ret k"
      using that by (auto simp: rf fieldsOf_def stringSettings_def)
    ultimately show ?thesis
      using pick_truthy[OF that, of c ret] by (simp add: pick_def js_or_truthy)
  qed
  have a: "autoFlushOf ic' r = autoFlushOf ic c"
    by (simp add: autoFlushOf_def r rf fieldsOf_def)
  have k: "''name'' \<in> set stringSettings" "''host'' \<in> set stringSettings"
          "''path'' \<in> set stringSettings" "''protocol'' \<in> set stringSettings"
          "''level'' \<in> set stringSettings"
    by (simp_all add: stringSettings_def)
  have "fieldsOf ic' r ret' n1 n2 n3 =
        ret'(''token'' \<mapsto> getp rf ''token'', ''name'' \<mapsto> getp rf ''name'',
             ''host'' \<mapsto> getp rf ''host'', ''path'' \<mapsto> getp rf ''path'',
             ''protocol'' \<mapsto> getp rf ''protocol'', ''level'' \<mapsto> getp rf ''level'',
             ''maxRetries'' \<mapsto> JNum n1, ''autoFlush'' \<mapsto> JBool (autoFlushOf ic c),
             ''maxBatchSize'' \<mapsto> JNum n2, ''batchInterval'' \<mapsto> JNum n3)"
    unfolding fieldsOf_def[of ic' r ret'] t s[OF k(1)] s[OF k(2)] s[OF k(3)] s[OF k(4)] s[OF k(5)] a
    by (rule refl)
  also have "\<dots> =
        ret(''token'' \<mapsto> getp rf ''token'', ''name'' \<mapsto> getp rf ''name'',
             ''host'' \<mapsto> getp rf ''host'', ''path'' \<mapsto> getp rf ''path'',
             ''protocol'' \<mapsto> getp rf ''protocol'', ''level'' \<mapsto> getp rf ''level'',
             ''maxRetries'' \<mapsto> JNum n1, ''autoFlush'' \<mapsto> JBool (autoFlushOf ic c),
             ''maxBatchSize'' \<mapsto> JNum n2, ''batchInterval'' \<mapsto> JNum n3)"
    using same by (rule fieldsOf_other)
  also have "\<dots> = rf"
    by (simp add: rf fieldsOf_def)
  finally show ?thesis .
qed

lemma parseInt_zero_or:
  "\<not> truthy v \<Longrightarrow> parseInt (js_or (js_or (JNum 0) v) (JNum 0)) = Some 0"
  by (simp add: js_or_def)

lemma pick_resolved_number:
  assumes "k \<in> set numberSettings" and "getp r k = JNum n"
    and "n = 0 \<Longrightarrow> \<not> truthy (getp ret' k)" and "\<bar>n\<bar> < 10 ^ 21"
  shows "parseInt (pick r ret' k) = Some n"
proof (cases "n = 0")
  case True
  with assms show ?thesis
    by (simp add: pick_def default_number js_or_def)
next
  case False
  with assms(2,4) show ?thesis
    by (simp add: pick_def js_or_def)
qed

lemma settings_idempotent:
  assumes R: "initializeConfig E S (Arg (JObj c)) = (S1, Inr r)"
    and tok: "typeof (getp (instanceConfig S) ''token'') = ''string''"
    and url: "\<not> truthy (getp (instanceConfig S) ''url'')"
    and port: "getp (instanceConfig S) ''port'' = JNum p"
    and zero: "\<And>k. k \<in> set numberSettings \<Longrightarrow> getp r k = JNum 0
                 \<Longrightarrow> \<not> truthy (getp (instanceConfig S) k)"
    and small: "\<And>k n. k \<in> set numberSettings \<Longrightarrow> getp r k = JNum n
                 \<Longrightarrow> \<bar>n\<bar> < 10 ^ 21"
  shows "initializeConfig E S1 (Arg (JObj r)) = (S1, Inr r)"
proof -
  let ?inst = "instanceConfig S"
  let ?inst1 = "instanceConfig S1"
  from R obtain c' rf where au: "applyUrl E c = Inr c'"
    and rfe: "resolveFields (config S) c' ?inst = Inr rf"
    and rp: "resolvePort c' rf = Inr r"
    and S1: "S1 = fst (upsertTimer S rf)"
    unfolding initializeConfig_Arg_Inr by blast
  from resolveFields_Inr[OF rfe] obtain n1 n2 n3
    where n: "0 \<le> n1" "0 \<le> n2" "0 \<le> n3"
      and f: "rf = fieldsOf (config S) c' ?inst n1 n2 n3"
    by blast
  note P = resolvePort_Inr[OF rp]
  from P have r: "r = rf(''port'' \<mapsto> getp r ''port'')" by blast
  have rfport: "getp rf ''port'' = JNum p"
    by (simp add: f fieldsOf_def port)
  obtain q where q: "getp r ''port'' = JNum q"
  proof (cases "hasOwn c' ''port''")
    case True
    with P have "Some (getp r ''port'') = map_option JNum (parseInt (getp c' ''port''))" by blast
    then show ?thesis using that by (cases "parseInt (getp c' ''port'')") auto
  next
    case False
    with P have "getp r ''port'' = js_or (getp rf ''port'') (JNum 8088)" by blast
    then show ?thesis using that by (simp add: rfport js_or_def split: if_splits)
  qed
  have bi: "getp rf ''batchInterval'' = JNum n3"
    by (simp add: f fieldsOf_def)
  have same: "?inst1 k = ?inst k" if "k \<noteq> ''batchInterval''" for k
    unfolding S1 using upsertTimer_config[OF bi that] .
  have gsame: "getp ?inst1 k = getp ?inst k" if "k \<noteq> ''batchInterval''" for k
    using same[OF that] by (simp add: getp_def)
  have rnum: "getp r ''maxRetries'' = JNum n1" "getp r ''maxBatchSize'' = JNum n2"
             "getp r ''batchInterval'' = JNum n3"
    by (subst r, simp add: f fieldsOf_def)+
  have ks: "''maxRetries'' \<in> set numberSettings" "''maxBatchSize'' \<in> set numberSettings"
           "''batchInterval'' \<in> set numberSettings"
    by (simp_all add: numberSettings_def)
  have z3: "n3 = 0 \<Longrightarrow> \<not> truthy (getp ?inst1 ''batchInterval'')"
    using upsertTimer_interval[OF bi, of S] zero[OF ks(3)] rnum(3) by (auto simp: S1)
  have p1: "parseInt (pick r ?inst1 ''maxRetries'') = Some n1"
    using zero[OF ks(1)] rnum(1) small[OF ks(1) rnum(1)]
    by (intro pick_resolved_number[OF ks(1)]) (simp_all add: gsame)
  have p2: "parseInt (pick r ?inst1 ''maxBatchSize'') = Some n2"
    using zero[OF ks(2)] rnum(2) small[OF ks(2) rnum(2)]
    by (intro pick_resolved_number[OF ks(2)]) (simp_all add: gsame)
  have p3: "parseInt (pick r ?inst1 ''batchInterval'') = Some n3"
    using z3 rnum(3) small[OF ks(3) rnum(3)]
    by (intro pick_resolved_number[OF ks(3)]) simp_all
  have fa: "fieldsOf (config S1) r ?inst1 n1 n2 n3 = rf"
    using same f r by (rule fieldsOf_again)
  have 1: "checkConfig ?inst1 (JObj r) = Inr r"
  proof -
    have "hasOwn r ''token''" by (subst r) (simp add: f fieldsOf_def)
    then show ?thesis
      by (simp add: checkConfig_def gsame tok)
  qed
  have 2: "applyUrl E r = Inr r"
  proof -
    have "getp r ''url'' = getp ?inst ''url''"
      by (subst r) (simp add: f fieldsOf_def)
    with url show ?thesis by (simp add: applyUrl_none)
  qed
  have 3: "resolveFields (config S1) r ?inst1 = Inr rf"
    using n by (simp add: resolveFields_eq p1 p2 p3 numberError_def fa)
  have 4: "resolvePort r rf = Inr r"
  proof -
    have h: "hasOwn r ''port''" by (subst r) simp
    have qb: "\<bar>q\<bar> < 10 ^ 21"
      using P q by (simp add: num_lt_def)
    have "rf(''port'' \<mapsto> JNum q) = r" using r q by simp
    then show ?thesis
      using P h qb by (simp add: resolvePort_def checkPort_def q)
  qed
  have 5: "S1 = fst (upsertTimer S1 rf)"
    unfolding S1 using upsertTimer_again[OF bi refl refl, of S] by simp
  show ?thesis
    unfolding initializeConfig_Arg_Inr using 1 2 3 4 5 by blast
qed

lemma setp_truthy: "truthy v \<Longrightarrow> truthy (setp v k w)"
  by (cases v) simp_all

lemma setp_setp: "setp (setp v k w) k w = setp v k w"
  by (cases v) simp_all

lemma headers_again: "truthy h \<Longrightarrow> setp (js_or (setp h k w) d) k w = setp h k w"
  by (cases h) (simp_all add: js_or_def)

lemma js_or_truthy2: "truthy b \<Longrightarrow> truthy (js_or a b)"
  by (simp add: js_or_def)

lemma initializeRequestOptions_form:
  "initializeRequestOptions S (JObj r) x
     = requestOptionsFrom r (js_or x (JObj defaultRequestOptions))"
  by (simp add: initializeRequestOptions_def requestOptionsFrom_def Let_def js_or_truthy
                defaultRequestOptions_def)

lemma requestOptionsFrom_again:
  "requestOptionsFrom r (JObj (requestOptionsFrom r opts)) = requestOptionsFrom r opts"
proof (cases "truthy (getp r ''token'')")
  case True
  have h: "truthy (js_or (propOf opts ''headers'') (JObj Map.empty))"
    by (simp add: js_or_truthy2)
  show ?thesis
    using True headers_again[OF h]
    by (simp add: requestOptionsFrom_def js_or_same)
next
  case False
  then show ?thesis
    by (simp add: requestOptionsFrom_def js_or_same)
qed

text \<open>Request options made from request options the function made are the same.\<close>

lemma initializeRequestOptions_again:
  "initializeRequestOptions S (JObj r) (JObj (initializeRequestOptions S' (JObj r) x))
     = initializeRequestOptions S' (JObj r) x"
  by (simp add: initializeRequestOptions_form js_or_truthy requestOptionsFrom_again)

lemma contextArg_obj:
  assumes "initializeConfig E S (contextArg m) = (S1, Inr r)"
    and "typeof (getp (instanceConfig S) ''token'') = ''string''"
    and "\<not> truthy (getp (instanceConfig S) ''url'')"
  obtains c where "initializeConfig E S (Arg (JObj c)) = (S1, Inr r)"
proof (cases "truthy (getp m ''config'')")
  case True
  with assms(1) have a: "initializeConfig E S (Arg (getp m ''config'')) = (S1, Inr r)"
    by (simp add: contextArg_def)
  from initializeConfig_Arg_obj[OF a] obtain c where "getp m ''config'' = JObj c" .
  with a that show ?thesis by simp
next
  case False
  with assms(1) have a: "initializeConfig E S ThisConfig = (S1, Inr r)"
    by (simp add: contextArg_def)
  from assms(2) obtain inst where c: "config S = Some inst"
    by (cases "config S") (simp_all add: instanceConfig_def)
  then have i: "instanceConfig S = inst" by (simp add: instanceConfig_def)
  from a initializeConfig_This[OF c assms(3)[unfolded i]] that show ?thesis by simp
qed

lemma normalized_again:
  assumes "normalized S1 r m = JObj m'"
  shows "normalized S1 r m' = JObj m'"
proof -
  have m': "m' = m(''config'' \<mapsto> JObj r,
             ''requestOptions'' \<mapsto>
                JObj (initializeRequestOptions S1 (JObj r) (getp m ''requestOptions'')),
             ''message'' \<mapsto> getp m ''message'',
             ''severity'' \<mapsto> js_or (getp m ''severity'') (JStr levels_INFO),
             ''metadata'' \<mapsto>
                (if truthy (getp m ''metadata'') then getp m ''metadata''
                 else JObj Map.empty))"
    using assms by (simp add: normalized_def)
  have g: "getp m' ''requestOptions''
             = JObj (initializeRequestOptions S1 (JObj r) (getp m ''requestOptions''))"
          "getp m' ''message'' = getp m ''message''"
          "getp m' ''severity'' = js_or (getp m ''severity'') (JStr levels_INFO)"
          "getp m' ''metadata'' = (if truthy (getp m ''metadata'') then getp m ''metadata''
                                   else JObj Map.empty)"
    by (simp_all add: m')
  have t: "truthy (getp m' ''metadata'')" by (simp add: g)
  have "m'(''config'' \<mapsto> JObj r,
           ''requestOptions'' \<mapsto>
              JObj (initializeRequestOptions S1 (JObj r) (getp m' ''requestOptions'')),
           ''message'' \<mapsto> getp m' ''message'',
           ''severity'' \<mapsto> js_or (getp m' ''severity'') (JStr levels_INFO),
           ''metadata'' \<mapsto> getp m' ''metadata'') = m'"
    unfolding g initializeRequestOptions_again js_or_same
    by (rule ext) (simp add: m')
  then show ?thesis
    using t by (simp add: normalized_def)
qed

lemma zeroRetries_resolved:
  "\<exists>S r. initializeConfig plainEnv retryingLogger (Arg (JObj [''maxRetries'' \<mapsto> JStr ''0'']))
           = (S, Inr r)
         \<and> getp r ''maxRetries'' = JNum 0
         \<and> (\<exists>S2 r2. initializeConfig plainEnv S (Arg (JObj r)) = (S2, Inr r2)
                \<and> getp r2 ''maxRetries'' = JNum 5)"
  by (simp add: eval_config retryingLogger_def noneQueued_def twoQueued_def tokenConfig_def
        parse_defs)

text \<open>
  C9. Normalizing a normalized context can change it. On a logger whose own
  \<^verbatim>\<open>maxRetries\<close> is 5, the context \<^verbatim>\<open>{message: "second", config: {maxRetries: "0"}}\<close>
  is normalized to \<^verbatim>\<open>maxRetries\<close> 0, and normalizing that context gives \<^verbatim>\<open>maxRetries\<close>
  5: the second call reads the resolved \<open>0\<close> with \<^verbatim>\<open>config.maxRetries ||
  ret.maxRetries\<close> (line 249) and takes the logger's value. The comment of line 241 says
  the argument's value is taken first, and for \<^verbatim>\<open>autoFlush\<close> lines 258-267 ask
  \<^verbatim>\<open>hasOwnProperty\<close>, so that a resolved \<^verbatim>\<open>false\<close> is kept.
\<close>

theorem renormalizing_changes_zero_retries:
  "snd zeroRetriesOnce = Inr (projr (snd zeroRetriesOnce))
   \<and> propOf (propOf (projr (snd zeroRetriesOnce)) ''config'') ''maxRetries'' = JNum 0
   \<and> snd zeroRetriesTwice = Inr (projr (snd zeroRetriesTwice))
   \<and> propOf (propOf (projr (snd zeroRetriesTwice)) ''config'') ''maxRetries'' = JNum 5
   \<and> projr (snd zeroRetriesTwice) \<noteq> projr (snd zeroRetriesOnce)"
proof -
  from zeroRetries_resolved obtain S1 r S2 r2
    where R: "initializeConfig plainEnv retryingLogger
                (Arg (JObj [''maxRetries'' \<mapsto> JStr ''0''])) = (S1, Inr r)"
      and n: "getp r ''maxRetries'' = JNum 0"
      and R2: "initializeConfig plainEnv S1 (Arg (JObj r)) = (S2, Inr r2)"
      and n2: "getp r2 ''maxRetries'' = JNum 5"
    by blast
  let ?m = "[''message'' \<mapsto> JStr ''second'',
             ''config'' \<mapsto> JObj [''maxRetries'' \<mapsto> JStr ''0'']]"
  have a: "contextArg ?m = Arg (JObj [''maxRetries'' \<mapsto> JStr ''0''])"
    by (simp add: contextArg_def)
  have N: "zeroRetriesOnce = (S1, Inr (normalized S1 r ?m))"
    unfolding zeroRetriesOnce_def zeroRetriesContext_def initializeContext_JObj a R
    by (simp add: nullish_def)
  obtain m' where m': "normalized S1 r ?m = JObj m'"
    by (simp add: normalized_def)
  have g: "getp m' ''config'' = JObj r" "hasOwn m' ''message''"
          "getp m' ''message'' = JStr ''second''" "getp m' ''metadata'' = JObj Map.empty"
    using m' by (auto simp: normalized_def)
  have a': "contextArg m' = Arg (JObj r)"
    by (simp add: contextArg_def g)
  have N2: "zeroRetriesTwice = (S2, Inr (normalized S2 r2 m'))"
    unfolding zeroRetriesTwice_def N fst_conv snd_conv sum.sel m' initializeContext_JObj a' R2
    by (simp add: nullish_def g)
  have c1: "propOf (propOf (normalized S1 r ?m) ''config'') ''maxRetries'' = JNum 0"
    by (simp add: normalized_def n)
  have c2: "propOf (propOf (normalized S2 r2 m') ''config'') ''maxRetries'' = JNum 5"
    by (simp add: normalized_def n2)
  from c1 c2 have "normalized S2 r2 m' \<noteq> normalized S1 r ?m" by auto
  with c1 c2 show ?thesis
    by (simp add: N N2)
qed

lemma warnContext_resolved:
  "\<exists>S r. initializeConfig plainEnv retryingLogger (Arg (JObj callConfig)) = (S, Inr r)
         \<and> getp r ''maxRetries'' = JNum 3 \<and> getp r ''maxBatchSize'' = JNum 0
         \<and> getp r ''batchInterval'' = JNum 0"
  by (simp add: eval_config retryingLogger_def noneQueued_def twoQueued_def tokenConfig_def
        callConfig_def parse_defs)

text \<open>
  Apart from that, normalizing is idempotent. On a logger whose own settings have a string
  token, a numeric port and no \<^verbatim>\<open>url\<close> (as the constructor leaves them), a context
  that \<^verbatim>\<open>_initializeContext\<close> returned is returned unchanged when it is given to
  \<^verbatim>\<open>_initializeContext\<close> again, and the logger (its timer included) is as the first
  call left it, provided no numeric setting of the returned context is \<open>0\<close> where the
  logger's own value is not, and none reaches \<open>10 ^ 21\<close> (from where on \<^verbatim>\<open>parseInt\<close>
  reads a number's exponent form).
\<close>

theorem normalizer_idempotent:
  assumes "initializeContext E S ctx = (S1, Inr ctx1)"
    and "typeof (getp (instanceConfig S) ''token'') = ''string''"
    and "\<not> truthy (getp (instanceConfig S) ''url'')"
    and "getp (instanceConfig S) ''port'' = JNum p"
    and "\<forall>k \<in> set numberSettings. \<forall>n.
           propOf (propOf ctx1 ''config'') k = JNum n
             \<longrightarrow> \<bar>n\<bar> < 10 ^ 21 \<and> (n = 0 \<longrightarrow> \<not> truthy (getp (instanceConfig S) k))"
  shows "initializeContext E S1 ctx1 = (S1, Inr ctx1)"
proof -
  from initializeContext_Inr[OF assms(1)] obtain m r
    where ctx: "ctx = JObj m"
      and ic: "initializeConfig E S (contextArg m) = (S1, Inr r)"
      and hm: "hasOwn m ''message''" and nm: "\<not> nullish (getp m ''message'')"
      and c1: "ctx1 = normalized S1 r m"
    by blast
  from contextArg_obj[OF ic assms(2,3)] obtain c
    where R: "initializeConfig E S (Arg (JObj c)) = (S1, Inr r)" .
  obtain m' where m': "normalized S1 r m = JObj m'"
    by (simp add: normalized_def)
  have gc: "getp m' ''config'' = JObj r" and gm: "getp m' ''message'' = getp m ''message''"
    and hm': "hasOwn m' ''message''" and md: "truthy (getp m' ''metadata'')"
    using m' by (auto simp: normalized_def)
  have zero: "k \<in> set numberSettings \<Longrightarrow> getp r k = JNum 0
                \<Longrightarrow> \<not> truthy (getp (instanceConfig S) k)" for k
    using assms(5) by (simp add: c1 m' gc)
  have small: "k \<in> set numberSettings \<Longrightarrow> getp r k = JNum n \<Longrightarrow> \<bar>n\<bar> < 10 ^ 21" for k n
    using assms(5) by (simp add: c1 m' gc)
  have R2: "initializeConfig E S1 (contextArg m') = (S1, Inr r)"
    using settings_idempotent[OF R assms(2,3,4) zero small] by (simp add: contextArg_def gc)
  have nn: "\<not> nullish (getp m' ''metadata'')"
    using md by (cases "getp m' ''metadata''") (simp_all add: nullish_def)
  show ?thesis
    unfolding c1 m' initializeContext_JObj
    using hm' R2 nm nn by (simp add: gm normalized_again[OF m'])
qed

theorem normalizer_idempotent_witness:
  "snd (initializeContext plainEnv retryingLogger warnContext)
     = Inr (projr (snd (initializeContext plainEnv retryingLogger warnContext)))
   \<and> propOf (propOf (projr (snd (initializeContext plainEnv retryingLogger warnContext)))
               ''config'') ''maxRetries'' = JNum 3
   \<and> initializeContext plainEnv (fst (initializeContext plainEnv retryingLogger warnContext))
         (projr (snd (initializeContext plainEnv retryingLogger warnContext)))
       = (fst (initializeContext plainEnv retryingLogger warnContext),
          Inr (projr (snd (initializeContext plainEnv retryingLogger warnContext))))"
proof -
  from warnContext_resolved obtain S1 r
    where R: "initializeConfig plainEnv retryingLogger (Arg (JObj callConfig)) = (S1, Inr r)"
      and n: "getp r ''maxRetries'' = JNum 3" "getp r ''maxBatchSize'' = JNum 0"
             "getp r ''batchInterval'' = JNum 0"
    by blast
  let ?m = "[''message'' \<mapsto> JStr ''second'', ''config'' \<mapsto> JObj callConfig]"
  have a: "contextArg ?m = Arg (JObj callConfig)"
    by (simp add: contextArg_def)
  have N: "initializeContext plainEnv retryingLogger warnContext
             = (S1, Inr (normalized S1 r ?m))"
    unfolding warnContext_def initializeContext_JObj a R
    by (simp add: nullish_def)
  have cfg: "propOf (normalized S1 r ?m) ''config'' = JObj r"
    by (simp add: normalized_def)
  have i: "typeof (getp (instanceConfig retryingLogger) ''token'') = ''string''"
          "\<not> truthy (getp (instanceConfig retryingLogger) ''url'')"
          "getp (instanceConfig retryingLogger) ''port'' = JNum 8088"
    by (simp_all add: retryingLogger_config tokenConfig_def defaultConfig_def)
  have z: "\<forall>k \<in> set numberSettings. \<forall>n.
             propOf (propOf (normalized S1 r ?m) ''config'') k = JNum n
               \<longrightarrow> \<bar>n\<bar> < 10 ^ 21
                    \<and> (n = 0 \<longrightarrow> \<not> truthy (getp (instanceConfig retryingLogger) k))"
    by (simp add: cfg numberSettings_def n retryingLogger_config tokenConfig_def
          defaultConfig_def)
  from normalizer_idempotent[OF N i z] show ?thesis
    by (simp add: N cfg n)
qed



section \<open>Flushing the queue\<close>

text \<open>
  C7. After a batched flush the live context queue and the live size sequence are empty
  and \<^verbatim>\<open>calculateBatchSize()\<close> is \<open>0\<close>. The drained snapshot is another array than
  the live one: it still holds what was queued, and writing to it leaves the live queue
  empty. (The addresses of a logger's two arrays are addresses of its heap.)
\<close>

theorem drain_empties_live_queue:
  assumes "config S = Some ic" and "isBatched S ic"
    and "contextQueue S < length (ctxArrays S)" and "eventSizes S < length (sizeArrays S)"
  shows "queueOf (fst (flush E S)) = [] \<and> sizesOf (fst (flush E S)) = []
         \<and> calculateBatchSize (fst (flush E S)) = 0
         \<and> contextQueue (fst (flush E S)) \<noteq> contextQueue S
         \<and> eventSizes (fst (flush E S)) \<noteq> eventSizes S
         \<and> deref (ctxArrays (fst (flush E S))) (contextQueue S) = queueOf S
         \<and> deref (sizeArrays (fst (flush E S))) (eventSizes S) = sizesOf S
         \<and> (\<forall>xs. queueOf ((fst (flush E S))
                     \<lparr>ctxArrays := (ctxArrays (fst (flush E S)))[contextQueue S := xs]\<rparr>) = [])
         \<and> (\<forall>ys. sizesOf ((fst (flush E S))
                     \<lparr>sizeArrays := (sizeArrays (fst (flush E S)))[eventSizes S := ys]\<rparr>) = [])"
proof -
  let ?S' = "fst (flush E S)"
  have q: "sameQueues (drain S) ?S'"
    using assms(1,2) by (rule flush_batched_queues)
  then have f: "contextQueue ?S' = length (ctxArrays S)" "eventSizes ?S' = length (sizeArrays S)"
      "ctxArrays ?S' = ctxArrays S @ [[]]" "sizeArrays ?S' = sizeArrays S @ [[]]"
    by (simp_all add: sameQueues_def drain_def)
  show ?thesis
    using assms(3,4)
    by (simp add: f queueOf_def sizesOf_def calculateBatchSize_def deref_def nth_append
                  list_update_append)
qed

theorem drain_empties_live_queue_witness:
  "queueOf (fst (flush plainEnv twoQueuedManual)) = []
   \<and> sizesOf (fst (flush plainEnv twoQueuedManual)) = []
   \<and> calculateBatchSize (fst (flush plainEnv twoQueuedManual)) = 0
   \<and> deref (ctxArrays (fst (flush plainEnv twoQueuedManual))) 0 = [queuedA, queuedB]
   \<and> deref (sizeArrays (fst (flush plainEnv twoQueuedManual))) 0 = [40, 41]
   \<and> queueOf ((fst (flush plainEnv twoQueuedManual))
        \<lparr>ctxArrays := (ctxArrays (fst (flush plainEnv twoQueuedManual)))[0 := []]\<rparr>) = []"
proof -
  have c: "config twoQueuedManual = Some (tokenConfig(''autoFlush'' \<mapsto> JBool False))"
    by (simp add: twoQueuedManual_def)
  have b: "isBatched twoQueuedManual (tokenConfig(''autoFlush'' \<mapsto> JBool False))"
    by (simp add: isBatched_def)
  have a: "contextQueue twoQueuedManual < length (ctxArrays twoQueuedManual)"
          "eventSizes twoQueuedManual < length (sizeArrays twoQueuedManual)"
    by (simp_all add: twoQueuedManual_def twoQueued_def)
  have s: "contextQueue twoQueuedManual = 0" "eventSizes twoQueuedManual = 0"
          "queueOf twoQueuedManual = [queuedA, queuedB]" "sizesOf twoQueuedManual = [40, 41]"
    by (simp_all add: twoQueuedManual_def twoQueued_def queueOf_def sizesOf_def deref_def)
  from drain_empties_live_queue[OF c b a, of plainEnv]
  show ?thesis by (simp add: s)
qed


lemma setHeader_sel:
  assumes "c = normalized S r m"
  shows "propOf (setHeader c k v) ''config'' = JObj r"
    and "propOf (setHeader c k v) ''message'' = getp m ''message''"
    and "propOf (setHeader c k v) ''severity'' = js_or (getp m ''severity'') (JStr levels_INFO)"
    and "hasOwnProperty (setHeader c k v) ''metadata''"
    and "\<not> nullish (propOf (setHeader c k v) ''metadata'')"
    and "truthy (setHeader c k v)"
  unfolding assms
  by (simp_all add: normalized_def setHeader_def nullish_def split: jsval.splits)

lemma makeBody_event:
  assumes "truthy c" and "hasOwnProperty c ''metadata''"
    and "\<not> nullish (propOf c ''metadata'')"
  shows "\<exists>b. makeBody E c = Inr b
           \<and> getp b ''event'' = JObj [''message'' \<mapsto> propOf c ''message'',
                                       ''severity'' \<mapsto> js_or (propOf c ''severity'')
                                                              (JStr levels_INFO)]"
  using assms by (simp add: makeBody_def initializeMetadata_def Let_def)

lemma setBody_sel:
  assumes "propOf c ''config'' = JObj r"
  shows "propOf (propOf (setBody (setp c ''message'' (JObj b))) ''requestOptions'') ''body''
           = (if typeof (propOf c ''requestOptions'') = ''object''
                 \<and> propOf c ''requestOptions'' \<noteq> JNull then JObj b else JUndefined)"
    and "propOf (setBody (setp c ''message'' (JObj b))) ''config'' = JObj r"
  using assms
  by (cases c; cases "propOf c ''requestOptions''"; simp add: setBody_def)+

lemma afterChain_context:
  assumes "\<not> truthy err"
    and "initializeContext E S (passedOr os pc) = (S1, Inr c1)"
  shows "\<exists>cf. afterChain E S False os err pc = sendEvents E S1 cf
            \<and> \<not> nullish (propOf cf ''config'')
            \<and> num_le (Some 0) (toNumber (maxRetriesOf cf))
            \<and> propOf (propOf (propOf cf ''requestOptions'') ''body'') ''event''
                = JObj [''message'' \<mapsto> propOf (passedOr os pc) ''message'',
                        ''severity'' \<mapsto> js_or (propOf (passedOr os pc) ''severity'')
                                               (JStr levels_INFO)]"
proof -
  from initializeContext_Inr[OF assms(2)] obtain m r
    where m: "passedOr os pc = JObj m"
      and ic: "initializeConfig E S (contextArg m) = (S1, Inr r)"
      and c1: "c1 = normalized S1 r m"
    by blast
  define tok where
    "tok = JStr (''Splunk '' @ js_toString (propOf (propOf c1 ''config'') ''token''))"
  let ?c2 = "setHeader c1 ''Authorization'' tok"
  note h = setHeader_sel[OF c1, of "''Authorization''" tok]
  from makeBody_event[OF h(6) h(4) h(5), of E] obtain b
    where mb: "makeBody E ?c2 = Inr b"
      and ev: "getp b ''event'' = JObj [''message'' \<mapsto> propOf ?c2 ''message'',
                                        ''severity'' \<mapsto> js_or (propOf ?c2 ''severity'')
                                                               (JStr levels_INFO)]"
    by blast
  let ?cf = "setBody (setp ?c2 ''message'' (JObj b))"
  have ro: "typeof (propOf ?c2 ''requestOptions'') = ''object''
            \<and> propOf ?c2 ''requestOptions'' \<noteq> JNull"
    unfolding c1 by (simp add: normalized_def setHeader_def)
  note sb = setBody_sel[OF h(1), of b]
  have body: "propOf (propOf ?cf ''requestOptions'') ''body'' = JObj b"
    using sb(1) ro by simp
  from initializeConfig_Inr_retries[OF ic] obtain n
    where n: "0 \<le> n" "getp r ''maxRetries'' = JNum n"
    by blast
  have cfg: "\<not> nullish (propOf ?cf ''config'')"
    by (simp add: sb(2) nullish_def)
  have mr: "num_le (Some 0) (toNumber (maxRetriesOf ?cf))"
    using n by (simp add: maxRetriesOf_def sb(2) num_le_def)
  have ac: "afterChain E S False os err pc = sendEvents E S1 ?cf"
    using assms mb unfolding tok_def by (simp add: afterChain_def Let_def)
  have e: "propOf (propOf (propOf ?cf ''requestOptions'') ''body'') ''event''
             = JObj [''message'' \<mapsto> propOf (passedOr os pc) ''message'',
                     ''severity'' \<mapsto> js_or (propOf (passedOr os pc) ''severity'')
                                            (JStr levels_INFO)]"
    by (simp add: body ev h(2,3) m js_or_def)
  show ?thesis
    using ac cfg mr e by blast
qed


text \<open>The same when the collector accepts every POST: one POST, then the callback.\<close>

lemma afterChain_delivered:
  assumes "\<not> truthy err"
    and "initializeContext E S (passedOr os pc) = (S1, Inr c1)"
    and "\<And>ro k. request_post E ro k = (e, resp, body)"
    and "\<not> truthy e" and "truthy body" and "\<not> nullish (propOf body ''code'')"
    and "js_toString (propOf body ''code'') = ''0''"
  shows "\<exists>ro. afterChain E S False os err pc
                 = (S1\<lparr>trace := trace S @ [Post ro, Callback e resp body]\<rparr>, Inr ())"
proof -
  from afterChain_context[OF assms(1,2)] obtain cf
    where ac: "afterChain E S False os err pc = sendEvents E S1 cf"
      and cfg: "\<not> nullish (propOf cf ''config'')"
      and mr: "num_le (Some 0) (toNumber (maxRetriesOf cf))"
    by blast
  have fr: "trace S1 = trace S"
    using initializeContext_frame[of S E "passedOr os pc"] assms(2) by (simp add: frame_def)
  from sendEvents_delivered[OF cfg mr assms(3,4,5,6,7), of S1]
  show ?thesis
    unfolding ac fr by blast
qed

text \<open>
  The logger with two contexts queued, whatever its middlewares: the context popped off
  its queue is normalized, and the normalized context is normalized to itself.
\<close>

lemma queuedB_normalized:
  assumes "S = twoQueued\<lparr>middlewares := ms\<rparr>"
  shows "\<exists>S2 m. initializeContext plainEnv (popSize (snd (popContext S))) queuedB
                   = (S2, Inr (JObj m))
              \<and> initializeContext plainEnv S2 (JObj m) = (S2, Inr (JObj m))
              \<and> getp m ''message'' = JStr ''second'' \<and> getp m ''severity'' = JStr ''info''"
proof -
  let ?S1 = "popSize (snd (popContext S))"
  let ?m = "[''message'' \<mapsto> JStr ''second'', ''severity'' \<mapsto> JStr ''info'']"
  have c: "config ?S1 = Some tokenConfig"
    by (simp add: assms twoQueued_def popSize_def popContext_def queueOf_def deref_def)
  have i: "typeof (getp (instanceConfig ?S1) ''token'') = ''string''"
          "\<not> truthy (getp (instanceConfig ?S1) ''url'')"
          "getp (instanceConfig ?S1) ''port'' = JNum 8088"
    by (simp_all add: instanceConfig_def c tokenConfig_def defaultConfig_def)
  have "\<exists>S2 r. initializeConfig plainEnv ?S1 (Arg (JObj tokenConfig)) = (S2, Inr r)
                  \<and> getp r ''maxRetries'' = JNum 0 \<and> getp r ''maxBatchSize'' = JNum 0
                  \<and> getp r ''batchInterval'' = JNum 0"
    by (simp add: eval_config assms twoQueued_def popSize_def popContext_def queueOf_def
          sizesOf_def deref_def tokenConfig_def)
  then obtain S2 r
    where R: "initializeConfig plainEnv ?S1 (Arg (JObj tokenConfig)) = (S2, Inr r)"
      and n: "getp r ''maxRetries'' = JNum 0" "getp r ''maxBatchSize'' = JNum 0"
             "getp r ''batchInterval'' = JNum 0"
    by blast
  have a: "contextArg ?m = ThisConfig"
    by (simp add: contextArg_def)
  have R': "initializeConfig plainEnv ?S1 (contextArg ?m) = (S2, Inr r)"
    unfolding a using initializeConfig_This[OF c, of plainEnv] R
    by (simp add: tokenConfig_def defaultConfig_def)
  have N: "initializeContext plainEnv ?S1 queuedB = (S2, Inr (normalized S2 r ?m))"
    unfolding queuedB_def initializeContext_JObj R' by (simp add: nullish_def)
  obtain m' where m': "normalized S2 r ?m = JObj m'"
    by (simp add: normalized_def)
  have g: "getp m' ''config'' = JObj r" "hasOwn m' ''message''"
          "getp m' ''message'' = JStr ''second''" "getp m' ''metadata'' = JObj Map.empty"
          "getp m' ''severity'' = JStr ''info''"
    using m' by (auto simp: normalized_def js_or_def)
  have i0: "getp (instanceConfig ?S1) ''maxRetries'' = JNum 0"
           "getp (instanceConfig ?S1) ''maxBatchSize'' = JNum 0"
           "getp (instanceConfig ?S1) ''batchInterval'' = JNum 0"
    by (simp_all add: instanceConfig_def c tokenConfig_def default_numbers)
  have z: "k \<in> set numberSettings \<Longrightarrow> getp r k = JNum 0
             \<Longrightarrow> \<not> truthy (getp (instanceConfig ?S1) k)" for k
    using i0 by (auto simp: numberSettings_def)
  have sm: "k \<in> set numberSettings \<Longrightarrow> getp r k = JNum j \<Longrightarrow> \<bar>j\<bar> < 10 ^ 21" for k j
    using n by (auto simp: numberSettings_def)
  have R2: "initializeConfig plainEnv S2 (contextArg m') = (S2, Inr r)"
    using settings_idempotent[OF R i z sm] by (simp add: contextArg_def g)
  have N2: "initializeContext plainEnv S2 (JObj m') = (S2, Inr (JObj m'))"
    unfolding initializeContext_JObj R2
    by (simp add: nullish_def g normalized_again[OF m'])
  show ?thesis
    using N N2 g(3,5) unfolding m' by blast
qed



text \<open>
  C10. On the same path with an empty queue, \<^verbatim>\<open>pop()\<close> gives \<open>undefined\<close> and
  \<^verbatim>\<open>flush\<close> throws the error "Context argument is required." of
  \<^verbatim>\<open>_initializeContext\<close>; nothing is sent.
\<close>

theorem flush_empty_queue_throws:
  assumes "config S = Some ic" and "truthy (getp ic ''autoFlush'')" and "timerID S = None"
    and "\<not> batchOverSize S ic" and "queueOf S = []"
  shows "snd (flush E S) = Inl (Error ''Context argument is required.'')
         \<and> trace (fst (flush E S)) = trace S
         \<and> queueOf (fst (flush E S)) = []"
proof -
  have nb: "\<not> isBatched S ic" using assms(2,3,4) by (simp add: isBatched_def)
  have fl: "flush E S = (popSize S, Inl (Error ''Context argument is required.''))"
    using assms(5)
    by (simp add: flush_def assms(1) flushContext_def nb popContext_def pipeline_def
                  initializeContext_def)
  show ?thesis
    using assms(5) by (simp add: fl popSize_def queueOf_def)
qed

theorem flush_empty_queue_throws_witness:
  "snd (flush plainEnv noneQueued) = Inl (Error ''Context argument is required.'')
   \<and> trace (fst (flush plainEnv noneQueued)) = []
   \<and> queueOf (fst (flush plainEnv noneQueued)) = []"
proof -
  have c: "config noneQueued = Some tokenConfig" "timerID noneQueued = None"
          "queueOf noneQueued = []" "trace noneQueued = []"
    by (simp_all add: noneQueued_def twoQueued_def queueOf_def deref_def)
  have b: "\<not> batchOverSize noneQueued tokenConfig"
    by (simp add: batchOverSize_def tokenConfig_sel num_lt_def)
  from flush_empty_queue_throws[OF c(1) tokenConfig_sel(1) c(2) b c(3), of plainEnv]
  show ?thesis by (simp add: c)
qed

text \<open>
  C8, as amended. When the steps before a middleware hand their context on without error
  and that middleware hands on an error that holds in \<^verbatim>\<open>if (err)\<close>, \<^verbatim>\<open>flush\<close> calls the
  error sink once, with that error and the context as last observed (the object of
  \<^verbatim>\<open>flush\<close> itself, as the steps have left it, when what was last observed is not an
  object or another value that holds in a condition), makes no POST and never calls the
  completion callback.
\<close>

theorem middleware_abort_no_post:
  assumes "config S = Some ic"
    and "flushContext E S ic = (S1, Inr context0)"
    and "initializeContext E S1 context0 = (S2, Inr ctx)"
    and "middlewares S = before @ step # rest"
    and "chain before (noObjects(0 := ctx)) (Ref 0) = Some (os, JNull, received)"
    and "step os received = Some (os', err, passed)"
    and "truthy err"
  shows "flush E S =
           (S2\<lparr>trace := trace S @
                  [ErrorSink err
                     (case lastObserved received passed of
                        Ref a \<Rightarrow> os' a
                      | Val v \<Rightarrow> if truthy v then v else os' 0)]\<rparr>, Inr ())
         \<and> postCount (trace (fst (flush E S))) = postCount (trace S)
         \<and> callbacks (trace (fst (flush E S))) = callbacks (trace S)"
proof -
  have k1: "middlewares S1 = middlewares S" "trace S1 = trace S"
    using flushContext_keeps[of E S ic] assms(2) by simp_all
  have f: "frame S1 S2"
    using initializeContext_frame[of S1 E context0] assms(3) by simp
  then have k2: "middlewares S2 = before @ step # rest" "trace S2 = trace S"
    using k1 assms(4) by (simp_all add: frame_def)
  have ch: "chain (before @ step # rest) (noObjects(0 := ctx)) (Ref 0)
              = Some (os', err, lastObserved received passed)"
    using assms(5,6) truthy_not_nullish[OF assms(7)] by (rule chain_abort)
  have fl: "flush E S =
           (S2\<lparr>trace := trace S @
                  [ErrorSink err
                     (case lastObserved received passed of
                        Ref a \<Rightarrow> os' a
                      | Val v \<Rightarrow> if truthy v then v else os' 0)]\<rparr>, Inr ())"
    by (simp add: flush_def assms(1,2,3,7) pipeline_def ch afterChain_def k2 passedOr_def)
  show ?thesis
    by (simp add: fl postCount_snoc_sink callbacks_snoc_sink)
qed

theorem middleware_abort_no_post_witness:
  "flush plainEnv abortLogger =
     ((fst (initializeContext plainEnv (popSize (snd (popContext abortLogger))) queuedB))
        \<lparr>trace := [ErrorSink (JStr ''not allowed'')
           (setp (projr (snd (initializeContext plainEnv
                                (popSize (snd (popContext abortLogger))) queuedB)))
                 ''severity'' (JStr ''warn''))]\<rparr>,
      Inr ())
   \<and> postCount (trace (fst (flush plainEnv abortLogger))) = 0
   \<and> callbacks (trace (fst (flush plainEnv abortLogger))) = []"
proof -
  let ?S1 = "popSize (snd (popContext abortLogger))"
  have c: "config abortLogger = Some tokenConfig" "trace abortLogger = []"
          "middlewares abortLogger = [passingStep] @ rejectingStep # []"
    by (simp_all add: abortLogger_def twoQueued_def)
  have fc: "flushContext plainEnv abortLogger tokenConfig = (?S1, Inr queuedB)"
    by (simp add: flushContext_def isBatched_def batchOverSize_def tokenConfig_sel num_lt_def
          abortLogger_def twoQueued_def popContext_def queueOf_def deref_def)
  from queuedB_normalized[OF abortLogger_def] obtain S2 m
    where ic: "initializeContext plainEnv ?S1 queuedB = (S2, Inr (JObj m))"
    by blast
  let ?os = "(noObjects(0 := JObj m))(0 := setp (JObj m) ''severity'' (JStr ''warn''))"
  have ch: "chain [passingStep] (noObjects(0 := JObj m)) (Ref 0) = Some (?os, JNull, Ref 0)"
    by (simp add: passingStep_def nullish_def)
  have st: "rejectingStep ?os (Ref 0) = Some (?os, JStr ''not allowed'', Val JUndefined)"
    by (simp add: rejectingStep_def)
  have t: "truthy (JStr ''not allowed'')" by simp
  note th = middleware_abort_no_post[OF c(1) fc ic c(3) ch st t]
  have 1: "flush plainEnv abortLogger =
     ((fst (initializeContext plainEnv ?S1 queuedB))
        \<lparr>trace := [ErrorSink (JStr ''not allowed'')
           (setp (projr (snd (initializeContext plainEnv ?S1 queuedB)))
                 ''severity'' (JStr ''warn''))]\<rparr>,
      Inr ())"
    using th[THEN conjunct1] by (simp add: ic c lastObserved_def)
  have 2: "postCount (trace (fst (flush plainEnv abortLogger))) = 0
           \<and> callbacks (trace (fst (flush plainEnv abortLogger))) = []"
    using th[THEN conjunct2] by (simp add: c postCount_simps)
  show ?thesis by (rule conjI[OF 1 2])
qed

text \<open>
  The claim as it is written, for every non-null error, fails: the empty string is not
  null, and line 696 tests \<^verbatim>\<open>if (err)\<close>. With the one middleware that hands its context
  on with the error \<^verbatim>\<open>""\<close>, \<^verbatim>\<open>flush\<close> makes the POST and does not call the error sink.
\<close>

theorem middleware_abort_counterexample:
  "emptyErrorStep noObjects (Ref 0) = Some (noObjects, JStr [], Ref 0)
   \<and> \<not> nullish (JStr [])
   \<and> middlewares emptyErrorLogger = [emptyErrorStep]
   \<and> postCount (trace (fst (flush plainEnv emptyErrorLogger))) = 1
   \<and> sinks (trace (fst (flush plainEnv emptyErrorLogger))) = []"
proof -
  let ?S1 = "popSize (snd (popContext emptyErrorLogger))"
  have c: "config emptyErrorLogger = Some tokenConfig" "trace emptyErrorLogger = []"
          "middlewares emptyErrorLogger = [emptyErrorStep]"
    by (simp_all add: emptyErrorLogger_def twoQueued_def)
  have fc: "flushContext plainEnv emptyErrorLogger tokenConfig = (?S1, Inr queuedB)"
    by (simp add: flushContext_def isBatched_def batchOverSize_def tokenConfig_sel num_lt_def
          emptyErrorLogger_def twoQueued_def popContext_def queueOf_def deref_def)
  from queuedB_normalized[OF emptyErrorLogger_def] obtain S2 m
    where N: "initializeContext plainEnv ?S1 queuedB = (S2, Inr (JObj m))"
      and N2: "initializeContext plainEnv S2 (JObj m) = (S2, Inr (JObj m))"
    by blast
  have k: "middlewares S2 = [emptyErrorStep]" "trace S2 = []"
    using initializeContext_frame[of ?S1 plainEnv queuedB] N
    by (simp_all add: frame_def c popSize_def popContext_def)
  have nb: "\<not> isBatched emptyErrorLogger tokenConfig"
    by (simp add: isBatched_def batchOverSize_def tokenConfig_sel num_lt_def
          emptyErrorLogger_def twoQueued_def)
  have p: "passedOr (noObjects(0 := JObj m)) (Ref 0) = JObj m"
    by (simp add: passedOr_def)
  have f: "\<not> truthy (JStr [])" by simp
  have tr: "request_post plainEnv ro j
              = (JNull, JObj [''statusCode'' \<mapsto> JNum 200],
                 JObj [''text'' \<mapsto> JStr ''Success'', ''code'' \<mapsto> JNum 0])" for ro j
    by (simp add: plainEnv_def)
  have ok: "\<not> truthy JNull"
           "truthy (JObj [''text'' \<mapsto> JStr ''Success'', ''code'' \<mapsto> JNum 0])"
           "\<not> nullish (propOf (JObj [''text'' \<mapsto> JStr ''Success'', ''code'' \<mapsto> JNum 0]) ''code'')"
           "js_toString (propOf (JObj [''text'' \<mapsto> JStr ''Success'', ''code'' \<mapsto> JNum 0]) ''code'')
              = ''0''"
    by (simp_all add: nullish_def number_toString_0)
  have N2': "initializeContext plainEnv S2 (passedOr (noObjects(0 := JObj m)) (Ref 0))
               = (S2, Inr (JObj m))"
    using N2 by (simp only: p)
  from afterChain_delivered[OF f N2' tr ok] obtain ro
    where ac: "afterChain plainEnv S2 False (noObjects(0 := JObj m)) (JStr []) (Ref 0)
                 = (S2\<lparr>trace := trace S2 @
                        [Post ro, Callback JNull (JObj [''statusCode'' \<mapsto> JNum 200])
                           (JObj [''text'' \<mapsto> JStr ''Success'', ''code'' \<mapsto> JNum 0])]\<rparr>,
                    Inr ())"
    by blast
  have fl: "flush plainEnv emptyErrorLogger
              = (S2\<lparr>trace := [Post ro, Callback JNull (JObj [''statusCode'' \<mapsto> JNum 200])
                           (JObj [''text'' \<mapsto> JStr ''Success'', ''code'' \<mapsto> JNum 0])]\<rparr>,
                 Inr ())"
    using ac
    by (simp add: flush_def c fc pipeline_def N k nb emptyErrorStep_def nullish_def
          lastObserved_def)
  show ?thesis
    by (simp add: fl c emptyErrorStep_def nullish_def postCount_simps)
qed

end
